theory Spec2Isabelle
  imports Main
begin

section \<open>Data model\<close>

text \<open>
  Identifiers are UUIDs; a value of type \<open>uuid\<close> is the canonical text of one, so that
  Python's \<open>str(id)\<close> is the identity. Timestamp columns (\<open>created_at\<close>,
  \<open>updated_at\<close>) play no part in the rules below and are left out of the rows.
\<close>

type_synonym uuid = string

datatype TenantPlan = FREE | PRO | ENTERPRISE

datatype TenantStatus = TENANT_ACTIVE | SUSPENDED | DELETED

datatype TenantRole = OWNER | ADMIN | MEMBER

datatype AccountStatus = ACTIVE | INACTIVE | BANNED

record Tenant =
  tenant_id :: uuid
  tenant_name :: string
  tenant_plan :: TenantPlan
  tenant_status :: TenantStatus

record TenantAccountJoin =
  join_tenant_id :: uuid
  join_account_id :: uuid
  join_role :: TenantRole

record Account =
  account_id :: uuid
  account_email :: string
  account_password_hash :: string
  account_name :: string
  account_status :: AccountStatus
  account_last_login_at :: "int option"

text \<open>
  The exceptions of \<open>services/exceptions.py\<close>, each with its message, and the Python
  and storage exceptions that the modelled code can let escape.
\<close>

datatype exn =
    ValidationError string
  | AuthenticationError string
  | AuthorizationError string
  | ResourceNotFoundError string string
  | ResourceConflictError string
  | BusinessLogicError string
  | IntegrityError
  | KeyError string
  | IndexError string
  | TypeError string
  | AttributeError string
  | ValueError string

text \<open>
  The values that \<open>json.loads\<close> returns: \<open>None\<close>, booleans, integers, strings, lists,
  and dictionaries with string keys in insertion order. Floats are not modelled.
\<close>

datatype json =
    JNull
  | JBool bool
  | JInt int
  | JStr string
  | JList "json list"
  | JDict "(string \<times> json) list"

type_synonym pydict = "(string \<times> json) list"

datatype AppMode = CHAT | COMPLETION | AGENT | WORKFLOW

datatype AppStatus = NORMAL | ARCHIVED

record App =
  app_id :: uuid
  app_tenant_id :: uuid
  app_name :: string
  app_description :: "string option"
  app_mode :: AppMode
  app_icon :: string
  app_icon_background :: string
  app_enable_site :: bool
  app_enable_api :: bool
  app_status :: AppStatus
  app_created_by :: uuid

datatype ProviderType = OPENAI | TEI

record ModelProvider =
  provider_id :: uuid
  provider_tenant_id :: uuid
  provider_name :: string
  provider_type :: ProviderType
  encrypted_credentials :: string
  is_active :: bool
  provider_config :: json
  quota_config :: json
  created_by :: "uuid option"
  updated_by :: "uuid option"

text \<open>The relational store: one list of rows per table, in insertion order.\<close>

record db =
  accounts :: "Account list"
  tenants :: "Tenant list"
  joins :: "TenantAccountJoin list"
  apps :: "App list"
  providers :: "ModelProvider list"

section \<open>Python strings\<close>

text \<open>\<open>str.isspace\<close> on one character, for the code points below 256.\<close>

definition py_isspace :: "char \<Rightarrow> bool" where
  "py_isspace c =
     (let n = of_char c :: nat
      in (9 \<le> n \<and> n \<le> 13) \<or> (28 \<le> n \<and> n \<le> 32) \<or> n = 133 \<or> n = 160)"

definition py_strip :: "string \<Rightarrow> string" where
  "py_strip s = rev (dropWhile py_isspace (rev (dropWhile py_isspace s)))"

section \<open>Repositories\<close>

text \<open>\<open>query(...).filter(...).first()\<close>: the first row that satisfies the filter.\<close>

definition first_where :: "('a \<Rightarrow> bool) \<Rightarrow> 'a list \<Rightarrow> 'a option" where
  "first_where p xs = List.find p xs"

definition account_get_by_id :: "db \<Rightarrow> uuid \<Rightarrow> Account option" where
  "account_get_by_id d i = first_where (\<lambda>a. account_id a = i) (accounts d)"

definition account_get_by_email :: "db \<Rightarrow> string \<Rightarrow> Account option" where
  "account_get_by_email d e = first_where (\<lambda>a. account_email a = e) (accounts d)"

definition tenant_get_by_id :: "db \<Rightarrow> uuid \<Rightarrow> Tenant option" where
  "tenant_get_by_id d i = first_where (\<lambda>t. tenant_id t = i) (tenants d)"


definition is_join :: "uuid \<Rightarrow> uuid \<Rightarrow> TenantAccountJoin \<Rightarrow> bool" where
  "is_join t a j = (join_tenant_id j = t \<and> join_account_id j = a)"

definition get_member_join :: "db \<Rightarrow> uuid \<Rightarrow> uuid \<Rightarrow> TenantAccountJoin option" where
  "get_member_join d t a = first_where (is_join t a) (joins d)"

definition get_member_role :: "db \<Rightarrow> uuid \<Rightarrow> uuid \<Rightarrow> TenantRole option" where
  "get_member_role d t a = map_option join_role (get_member_join d t a)"

definition is_member :: "db \<Rightarrow> uuid \<Rightarrow> uuid \<Rightarrow> bool" where
  "is_member d t a = (\<exists>j \<in> set (joins d). is_join t a j)"




fun update_first :: "('a \<Rightarrow> bool) \<Rightarrow> ('a \<Rightarrow> 'a) \<Rightarrow> 'a list \<Rightarrow> 'a list" where
  "update_first p f [] = []"
| "update_first p f (x # xs) = (if p x then f x # xs else x # update_first p f xs)"



section \<open>TenantService\<close>





definition check_permission :: "db \<Rightarrow> uuid \<Rightarrow> uuid \<Rightarrow> TenantRole \<Rightarrow> bool" where
  "check_permission d t a required_role =
     (case get_member_role d t a of
        None \<Rightarrow> False
      | Some member_role \<Rightarrow>
          if member_role = OWNER then True
          else if member_role = ADMIN then required_role \<in> {ADMIN, MEMBER}
          else required_role = MEMBER)"






section \<open>AppService\<close>

definition app_get_by_id :: "db \<Rightarrow> uuid \<Rightarrow> App option" where
  "app_get_by_id d i = first_where (\<lambda>a. app_id a = i) (apps d)"

definition app_repo_create :: "db \<Rightarrow> App \<Rightarrow> exn + (db \<times> App)" where
  "app_repo_create d a =
     (if app_id a \<in> app_id ` set (apps d) then Inl IntegrityError
      else Inr (d\<lparr>apps := apps d @ [a]\<rparr>, a))"

definition get_by_tenant :: "db \<Rightarrow> uuid \<Rightarrow> App list" where
  "get_by_tenant d t = filter (\<lambda>a. app_tenant_id a = t) (apps d)"

definition get_active_apps_by_tenant :: "db \<Rightarrow> uuid \<Rightarrow> App list" where
  "get_active_apps_by_tenant d t =
     filter (\<lambda>a. app_tenant_id a = t \<and> app_status a = NORMAL) (apps d)"

text \<open>\<open>BaseRepository.update(id, status=...)\<close>: the row found by its identifier, or None.\<close>

definition app_repo_set_status :: "db \<Rightarrow> uuid \<Rightarrow> AppStatus \<Rightarrow> db \<times> App option" where
  "app_repo_set_status d i st =
     (case app_get_by_id d i of
        None \<Rightarrow> (d, None)
      | Some a \<Rightarrow>
          (d\<lparr>apps := update_first (\<lambda>a. app_id a = i) (\<lambda>a. a\<lparr>app_status := st\<rparr>) (apps d)\<rparr>,
           Some (a\<lparr>app_status := st\<rparr>)))"

definition archive :: "db \<Rightarrow> uuid \<Rightarrow> db \<times> App option" where
  "archive d i = app_repo_set_status d i ARCHIVED"

definition unarchive :: "db \<Rightarrow> uuid \<Rightarrow> db \<times> App option" where
  "unarchive d i = app_repo_set_status d i NORMAL"

definition or_default :: "string option \<Rightarrow> string \<Rightarrow> string" where
  "or_default v dflt = (case v of None \<Rightarrow> dflt | Some s \<Rightarrow> if s = [] then dflt else s)"

text \<open>The default icon is the robot emoji, here as its UTF-8 bytes.\<close>

definition default_icon :: string where
  "default_icon = [CHR 0xF0, CHR 0x9F, CHR 0xA4, CHR 0x96]"

definition create_app ::
  "db \<Rightarrow> uuid \<Rightarrow> uuid \<Rightarrow> uuid \<Rightarrow> string \<Rightarrow> AppMode \<Rightarrow> string option \<Rightarrow> string option \<Rightarrow>
   string option \<Rightarrow> exn + (db \<times> App)" where
  "create_app d new_id t account name mode description icon icon_background =
     (if name = [] \<or> length (py_strip name) = 0 then
        Inl (ValidationError ''App name is required'')
      else if length (py_strip name) > 100 then
        Inl (ValidationError ''App name is too long (max 100 characters)'')
      else case tenant_get_by_id d t of
        None \<Rightarrow> Inl (ResourceNotFoundError ''Tenant'' t)
      | Some tenant \<Rightarrow>
          if \<not> is_member d t account then
            Inl (AuthorizationError ''Not a member of this tenant'')
          else app_repo_create d
            \<lparr>app_id = new_id, app_tenant_id = t, app_name = py_strip name,
             app_description = description, app_mode = mode,
             app_icon = or_default icon default_icon,
             app_icon_background = or_default icon_background ''#E0F2FE'',
             app_enable_site = True, app_enable_api = True, app_status = NORMAL,
             app_created_by = account\<rparr>)"

definition archive_app :: "db \<Rightarrow> uuid \<Rightarrow> uuid \<Rightarrow> exn + (db \<times> App option)" where
  "archive_app d i account =
     (case app_get_by_id d i of
        None \<Rightarrow> Inl (ResourceNotFoundError ''App'' i)
      | Some app \<Rightarrow>
          if \<not> is_member d (app_tenant_id app) account then
            Inl (AuthorizationError ''Not a member of this tenant'')
          else Inr (archive d i))"

definition unarchive_app :: "db \<Rightarrow> uuid \<Rightarrow> uuid \<Rightarrow> exn + (db \<times> App option)" where
  "unarchive_app d i account =
     (case app_get_by_id d i of
        None \<Rightarrow> Inl (ResourceNotFoundError ''App'' i)
      | Some app \<Rightarrow>
          if \<not> is_member d (app_tenant_id app) account then
            Inl (AuthorizationError ''Not a member of this tenant'')
          else Inr (unarchive d i))"

definition get_tenant_apps :: "db \<Rightarrow> uuid \<Rightarrow> uuid \<Rightarrow> bool \<Rightarrow> exn + App list" where
  "get_tenant_apps d t account include_archived =
     (case tenant_get_by_id d t of
        None \<Rightarrow> Inl (ResourceNotFoundError ''Tenant'' t)
      | Some tenant \<Rightarrow>
          if \<not> is_member d t account then
            Inl (AuthorizationError ''Not a member of this tenant'')
          else if include_archived then Inr (get_by_tenant d t)
          else Inr (get_active_apps_by_tenant d t))"

section \<open>Python values\<close>

text \<open>Truth value of a Python object, as \<open>if x\<close> and \<open>not x\<close> test it.\<close>

fun truthy :: "json \<Rightarrow> bool" where
  "truthy JNull = False"
| "truthy (JBool b) = b"
| "truthy (JInt i) = (i \<noteq> 0)"
| "truthy (JStr s) = (s \<noteq> [])"
| "truthy (JList xs) = (xs \<noteq> [])"
| "truthy (JDict ps) = (ps \<noteq> [])"

fun type_name :: "json \<Rightarrow> string" where
  "type_name JNull = ''NoneType''"
| "type_name (JBool b) = ''bool''"
| "type_name (JInt i) = ''int''"
| "type_name (JStr s) = ''str''"
| "type_name (JList xs) = ''list''"
| "type_name (JDict ps) = ''dict''"

text \<open>\<open>d.get(key)\<close> and \<open>d.get(key, default)\<close>.\<close>

definition dict_get :: "pydict \<Rightarrow> string \<Rightarrow> json option" where
  "dict_get d k = map_of d k"

definition dict_get_default :: "pydict \<Rightarrow> string \<Rightarrow> json \<Rightarrow> json" where
  "dict_get_default d k dflt = (case map_of d k of None \<Rightarrow> dflt | Some v \<Rightarrow> v)"

text \<open>\<open>d[key] = value\<close>: a present key keeps its place, a new key goes last.\<close>

fun dict_set :: "pydict \<Rightarrow> string \<Rightarrow> json \<Rightarrow> pydict" where
  "dict_set [] k v = [(k, v)]"
| "dict_set ((k', v') # d) k v = (if k' = k then (k, v) # d else (k', v') # dict_set d k v)"

definition py_rstrip_slash :: "string \<Rightarrow> string" where
  "py_rstrip_slash s = rev (dropWhile (\<lambda>c. c = CHR ''/'') (rev s))"

definition no_attribute :: "json \<Rightarrow> string \<Rightarrow> exn" where
  "no_attribute v attr =
     AttributeError ([CHR 0x27] @ type_name v @ [CHR 0x27] @ '' object has no attribute ''
                     @ [CHR 0x27] @ attr @ [CHR 0x27])"

section \<open>json.dumps\<close>

definition digit_char :: "nat \<Rightarrow> char" where
  "digit_char n = char_of (48 + n)"

function dec_digits :: "nat \<Rightarrow> string" where
  "dec_digits n = (if n < 10 then [digit_char n] else dec_digits (n div 10) @ [digit_char (n mod 10)])"
  by pat_completeness auto
termination
  by (relation "measure id") auto

declare dec_digits.simps [simp del]

definition int_repr :: "int \<Rightarrow> string" where
  "int_repr i = (if i < 0 then CHR ''-'' # dec_digits (nat (- i)) else dec_digits (nat i))"

definition hex_char :: "nat \<Rightarrow> char" where
  "hex_char n = (if n < 10 then char_of (48 + n) else char_of (87 + n))"

text \<open>
  One character of a string under \<open>ensure_ascii\<close>: printable ASCII stays, the quote and
  the backslash get a backslash, the usual control characters their letter, and every
  other character its \<open>\<^verbatim>\<open>\u00XX\<close>\<close> escape.
\<close>

definition escape_char :: "char \<Rightarrow> string" where
  "escape_char c =
     (if c = CHR 0x22 then [CHR 0x5C, CHR 0x22]
      else if c = CHR 0x5C then [CHR 0x5C, CHR 0x5C]
      else if c = CHR 0x0A then [CHR 0x5C, CHR ''n'']
      else if c = CHR 0x0D then [CHR 0x5C, CHR ''r'']
      else if c = CHR 0x09 then [CHR 0x5C, CHR ''t'']
      else if c = CHR 0x08 then [CHR 0x5C, CHR ''b'']
      else if c = CHR 0x0C then [CHR 0x5C, CHR ''f'']
      else if 32 \<le> (of_char c :: nat) \<and> (of_char c :: nat) \<le> 126 then [c]
      else [CHR 0x5C, CHR ''u'', CHR ''0'', CHR ''0'',
            hex_char ((of_char c :: nat) div 16), hex_char ((of_char c :: nat) mod 16)])"

definition encode_basestring_ascii :: "string \<Rightarrow> string" where
  "encode_basestring_ascii s = [CHR 0x22] @ concat (map escape_char s) @ [CHR 0x22]"

text \<open>\<open>', '.join(parts)\<close>.\<close>

fun join_comma :: "string list \<Rightarrow> string" where
  "join_comma [] = []"
| "join_comma [x] = x"
| "join_comma (x # y # ys) = x @ '', '' @ join_comma (y # ys)"

text \<open>
  The objects that are handed to \<open>json.dumps\<close>: the values above and, besides them,
  tuples, and dictionaries with keys that are strings, integers, booleans or \<open>None\<close>.
  Floats, as values or as keys, are not modelled, and neither are objects that
  \<open>json.dumps\<close> refuses with a TypeError.
\<close>

datatype pykey = KStr string | KInt int | KBool bool | KNone

datatype pyval =
    PNone
  | PBool bool
  | PInt int
  | PStr string
  | PList "pyval list"
  | PTuple "pyval list"
  | PDict "(pykey \<times> pyval) list"

text \<open>A value that \<open>json.loads\<close> returned, as a Python object.\<close>

fun of_json :: "json \<Rightarrow> pyval" where
  "of_json JNull = PNone"
| "of_json (JBool b) = PBool b"
| "of_json (JInt i) = PInt i"
| "of_json (JStr s) = PStr s"
| "of_json (JList xs) = PList (map of_json xs)"
| "of_json (JDict ps) = PDict (map (\<lambda>(k, v). (KStr k, of_json v)) ps)"

text \<open>
  The key of a dictionary as the encoder writes it: a key that is not a string is
  replaced by the text of its JSON form.
\<close>

fun key_text :: "pykey \<Rightarrow> string" where
  "key_text (KStr s) = s"
| "key_text (KInt i) = int_repr i"
| "key_text (KBool b) = (if b then ''true'' else ''false'')"
| "key_text KNone = ''null''"

text \<open>
  The text that the encoder writes, with the default separators and \<open>ensure_ascii\<close>: a
  tuple is written as a list is.
\<close>

fun encode_text :: "pyval \<Rightarrow> string" where
  "encode_text PNone = ''null''"
| "encode_text (PBool b) = (if b then ''true'' else ''false'')"
| "encode_text (PInt i) = int_repr i"
| "encode_text (PStr s) = encode_basestring_ascii s"
| "encode_text (PList xs) = ''['' @ join_comma (map encode_text xs) @ '']''"
| "encode_text (PTuple xs) = ''['' @ join_comma (map encode_text xs) @ '']''"
| "encode_text (PDict ps) =
     ''{''
     @ join_comma (map (\<lambda>(k, v). encode_basestring_ascii (key_text k) @ '': '' @ encode_text v) ps)
     @ ''}''"

text \<open>
  The limit of the interpreter on the conversion between integers and decimal text
  (\<open>sys.int_info.default_max_str_digits\<close>): the conversion of an integer of more digits
  raises a ValueError, in either direction. The sign does not count.
\<close>

definition max_str_digits :: nat where
  "max_str_digits = 4300"

definition int_str_ok :: "int \<Rightarrow> bool" where
  "int_str_ok i = (length (dec_digits (nat (abs i))) \<le> max_str_digits)"

fun key_ok :: "pykey \<Rightarrow> bool" where
  "key_ok (KInt i) = int_str_ok i"
| "key_ok k = True"

fun ints_ok :: "pyval \<Rightarrow> bool" where
  "ints_ok (PInt i) = int_str_ok i"
| "ints_ok (PList xs) = list_all ints_ok xs"
| "ints_ok (PTuple xs) = list_all ints_ok xs"
| "ints_ok (PDict ps) = list_all (\<lambda>(k, v). key_ok k \<and> ints_ok v) ps"
| "ints_ok v = True"

text \<open>
  How deep the containers of a value are nested. Encoder and decoder recurse once for
  each level, and the recursion limit of the interpreter stops them with a
  RecursionError at a depth that depends on the call stack they are entered with. The
  model covers the values and texts nested at most \<open>nesting_limit\<close> deep, well within
  the default recursion limit of 1000, and says nothing about deeper ones.
\<close>

definition nesting_limit :: nat where
  "nesting_limit = 100"

fun nesting :: "pyval \<Rightarrow> nat" where
  "nesting (PList xs) = Suc (foldr max (map nesting xs) 0)"
| "nesting (PTuple xs) = Suc (foldr max (map nesting xs) 0)"
| "nesting (PDict ps) = Suc (foldr max (map (\<lambda>(k, v). nesting v) ps) 0)"
| "nesting v = 0"

text \<open>
  \<open>json.dumps(obj)\<close>: the text, or the ValueError of an integer above the digit limit
  among the values and keys of \<open>obj\<close>; \<open>EncodeUnmodelled\<close> for an object nested
  deeper than \<open>nesting_limit\<close>.
\<close>

datatype encoded = Encoded string | EncodeError exn | EncodeUnmodelled

definition json_dumps :: "pyval \<Rightarrow> encoded" where
  "json_dumps obj =
     (if nesting_limit < nesting obj then EncodeUnmodelled
      else if \<not> ints_ok obj then
        EncodeError (ValueError (''Exceeds the limit (4300 digits) for integer string conversion;''
                                @ '' use sys.set_int_max_str_digits() to increase the limit''))
      else Encoded (encode_text obj))"
section \<open>Provider adapters\<close>

text \<open>
  The HTTP client is outside the program: \<open>http_get url api_key\<close> is None when the
  request succeeds with a 2xx status, and the text of the \<open>httpx.HTTPError\<close> otherwise.
\<close>

type_synonym http_client = "string \<Rightarrow> json \<Rightarrow> string option"

definition openai_validate_credentials :: "http_client \<Rightarrow> pydict \<Rightarrow> exn + bool" where
  "openai_validate_credentials http_get credentials =
     (let api_key = dict_get_default credentials ''api_key'' JNull;
          base_url = dict_get_default credentials ''base_url'' (JStr ''https://api.openai.com/v1'')
      in if \<not> truthy api_key then Inl (ValueError ''api_key is required'')
         else case base_url of
           JStr u \<Rightarrow>
             (case http_get (py_rstrip_slash u @ ''/models'') api_key of
                None \<Rightarrow> Inr True
              | Some msg \<Rightarrow> Inl (ValueError (''Failed to validate credentials: '' @ msg)))
         | other \<Rightarrow> Inl (no_attribute other ''rstrip''))"

definition tei_validate_credentials :: "http_client \<Rightarrow> pydict \<Rightarrow> exn + bool" where
  "tei_validate_credentials http_get credentials =
     (let base_url = dict_get_default credentials ''base_url'' JNull
      in if \<not> truthy base_url then Inl (ValueError ''base_url is required'')
         else case base_url of
           JStr u \<Rightarrow>
             (case http_get (py_rstrip_slash u @ ''/health'') JNull of
                None \<Rightarrow> Inr True
              | Some msg \<Rightarrow> Inl (ValueError (''Failed to validate credentials: '' @ msg)))
         | other \<Rightarrow> Inl (no_attribute other ''rstrip''))"

text \<open>\<open>ModelProviderService._validate_credentials\<close>, through the factory.\<close>

definition validate_credentials :: "http_client \<Rightarrow> ProviderType \<Rightarrow> pydict \<Rightarrow> exn + bool" where
  "validate_credentials http_get ptype credentials =
     (case ptype of
        OPENAI \<Rightarrow> openai_validate_credentials http_get credentials
      | TEI \<Rightarrow> tei_validate_credentials http_get credentials)"

text \<open>\<open>str(e)\<close> of an exception.\<close>

fun exn_str :: "exn \<Rightarrow> string" where
  "exn_str (ValidationError m) = m"
| "exn_str (AuthenticationError m) = m"
| "exn_str (AuthorizationError m) = m"
| "exn_str (ResourceNotFoundError r i) = r @ '' not found: '' @ i"
| "exn_str (ResourceConflictError m) = m"
| "exn_str (BusinessLogicError m) = m"
| "exn_str IntegrityError = ''IntegrityError''"
| "exn_str (KeyError k) = [CHR 0x27] @ k @ [CHR 0x27]"
| "exn_str (IndexError m) = m"
| "exn_str (TypeError m) = m"
| "exn_str (AttributeError m) = m"
| "exn_str (ValueError m) = m"

section \<open>ModelProviderService\<close>

definition get_active_by_tenant_and_name :: "db \<Rightarrow> uuid \<Rightarrow> string \<Rightarrow> ModelProvider option" where
  "get_active_by_tenant_and_name d t name =
     first_where (\<lambda>p. provider_tenant_id p = t \<and> provider_name p = name \<and> is_active p)
       (providers d)"

definition provider_repo_create :: "db \<Rightarrow> ModelProvider \<Rightarrow> exn + (db \<times> ModelProvider)" where
  "provider_repo_create d p =
     (if provider_id p \<in> provider_id ` set (providers d) then Inl IntegrityError
      else Inr (d\<lparr>providers := providers d @ [p]\<rparr>, p))"

text \<open>\<open>ModelProvider.encrypt_credentials\<close>.\<close>

definition encrypt_credentials :: "pyval \<Rightarrow> encoded" where
  "encrypt_credentials credentials = json_dumps credentials"

text \<open>\<open>config or {}\<close>.\<close>

definition or_empty_dict :: "json option \<Rightarrow> json" where
  "or_empty_dict c = (case c of None \<Rightarrow> JDict [] | Some v \<Rightarrow> if truthy v then v else JDict [])"

text \<open>
  \<open>add_provider\<close>. The new row keeps the text that \<open>encrypt_credentials\<close> writes for
  the credentials. The calls in which \<open>json.dumps\<close> raises on credentials that passed
  the adapter (an integer above the digit limit, nesting beyond the recursion limit)
  end with that exception and without a row; they are not covered by this function.
\<close>

definition add_provider ::
  "http_client \<Rightarrow> db \<Rightarrow> uuid \<Rightarrow> uuid \<Rightarrow> string \<Rightarrow> ProviderType \<Rightarrow> pydict \<Rightarrow> json option \<Rightarrow>
   json option \<Rightarrow> uuid option \<Rightarrow> exn + (db \<times> ModelProvider)" where
  "add_provider http_get d new_id t name ptype credentials config quota creator =
     (case tenant_get_by_id d t of
        None \<Rightarrow> Inl (ResourceNotFoundError ''Tenant'' t)
      | Some tenant \<Rightarrow>
          if name = [] \<or> length (py_strip name) = 0 then
            Inl (ValidationError ''Provider name is required'')
          else if length name > 100 then
            Inl (ValidationError ''Provider name is too long (max 100 characters)'')
          else
            (case get_active_by_tenant_and_name d t name of
               Some existing \<Rightarrow>
                 Inl (ResourceConflictError
                        (''Provider with name '' @ [CHR 0x27] @ name @ [CHR 0x27]
                         @ '' already exists''))
             | None \<Rightarrow>
                 if credentials = [] then Inl (ValidationError ''Credentials are required'')
                 else
                   (case validate_credentials http_get ptype credentials of
                      Inl e \<Rightarrow> Inl (BusinessLogicError (''Invalid credentials: '' @ exn_str e))
                    | Inr ok \<Rightarrow>
                        provider_repo_create d
                          \<lparr>provider_id = new_id, provider_tenant_id = t, provider_name = name,
                           provider_type = ptype,
                           encrypted_credentials = encode_text (of_json (JDict credentials)),
                           is_active = True, provider_config = or_empty_dict config,
                           quota_config = or_empty_dict quota, created_by = creator,
                           updated_by = None\<rparr>)))"

section \<open>AuthService\<close>

text \<open>
  The collaborators of the service, which the repository uses as libraries: the token
  codec (PyJWT, with the clock it reads as the last argument of \<open>jwt_decode\<close>), the
  password-hash check (werkzeug) and the UUID constructor. \<open>secret_key\<close> and
  \<open>token_expiry_hours\<close> are the service's own fields. The service hands tokens on
  without looking inside them, so their type \<open>'tok\<close> is left open.
\<close>

datatype jwt_error = ExpiredSignatureError | InvalidTokenError

record 'tok AuthService =
  secret_key :: string
  token_expiry_hours :: int
  jwt_encode :: "pydict \<Rightarrow> string \<Rightarrow> 'tok"
  jwt_decode :: "'tok \<Rightarrow> string \<Rightarrow> int \<Rightarrow> jwt_error + pydict"
  check_password_hash :: "string \<Rightarrow> string \<Rightarrow> bool"
  uuid_of_str :: "string \<Rightarrow> string + uuid"

text \<open>Times are seconds since the epoch, as the codec writes \<open>exp\<close> and \<open>iat\<close>.\<close>

definition generate_token :: "'tok AuthService \<Rightarrow> int \<Rightarrow> uuid \<Rightarrow> string \<Rightarrow> 'tok" where
  "generate_token svc now account email =
     jwt_encode svc
       [(''account_id'', JStr account), (''email'', JStr email),
        (''exp'', JInt (now + 3600 * token_expiry_hours svc)), (''iat'', JInt now)]
       (secret_key svc)"

definition account_repo_update_last_login :: "db \<Rightarrow> uuid \<Rightarrow> int \<Rightarrow> db" where
  "account_repo_update_last_login d i now =
     d\<lparr>accounts := update_first (\<lambda>a. account_id a = i)
                      (\<lambda>a. a\<lparr>account_last_login_at := Some now\<rparr>) (accounts d)\<rparr>"

definition login ::
  "'tok AuthService \<Rightarrow> int \<Rightarrow> db \<Rightarrow> string \<Rightarrow> string \<Rightarrow> exn + (db \<times> Account \<times> 'tok)" where
  "login svc now d email password =
     (case account_get_by_email d email of
        None \<Rightarrow> Inl (AuthenticationError ''Invalid email or password'')
      | Some account \<Rightarrow>
          if account_status account = BANNED then
            Inl (AuthenticationError ''Account has been banned'')
          else if account_status account = INACTIVE then
            Inl (AuthenticationError ''Account is inactive'')
          else if \<not> check_password_hash svc (account_password_hash account) password then
            Inl (AuthenticationError ''Invalid email or password'')
          else
            Inr (account_repo_update_last_login d (account_id account) now,
                 account\<lparr>account_last_login_at := Some now\<rparr>,
                 generate_token svc now (account_id account) (account_email account)))"

definition verify_token :: "'tok AuthService \<Rightarrow> int \<Rightarrow> db \<Rightarrow> 'tok \<Rightarrow> exn + Account" where
  "verify_token svc now d token =
     (case jwt_decode svc token (secret_key svc) now of
        Inl ExpiredSignatureError \<Rightarrow> Inl (AuthenticationError ''Token has expired'')
      | Inl InvalidTokenError \<Rightarrow> Inl (AuthenticationError ''Invalid token'')
      | Inr payload \<Rightarrow>
          (case dict_get payload ''account_id'' of
             None \<Rightarrow> Inl (AuthenticationError ''Invalid token'')
           | Some v \<Rightarrow>
               if \<not> truthy v then Inl (AuthenticationError ''Invalid token'')
               else
                 (case v of
                    JStr s \<Rightarrow>
                      (case uuid_of_str svc s of
                         Inl msg \<Rightarrow> Inl (ValueError msg)
                       | Inr u \<Rightarrow>
                           (case account_get_by_id d u of
                              None \<Rightarrow> Inl (AuthenticationError ''Account not found'')
                            | Some account \<Rightarrow>
                                if account_status account \<noteq> ACTIVE then
                                  Inl (AuthenticationError ''Account is not active'')
                                else Inr account))
                  | other \<Rightarrow> Inl (no_attribute other ''replace''))))"

text \<open>
  Modelled from the spec: the token codec is a library, which the specification
  describes by its interface: decoding what was encoded under the same key gives back
  the claims, unless the \<open>exp\<close> claim is not after the clock, which is signalled as
  expired. A codec that meets this description:
\<close>

definition codec_as_specified :: "'tok AuthService \<Rightarrow> bool" where
  "codec_as_specified svc =
     (\<forall>claims key e now. dict_get claims ''exp'' = Some (JInt e) \<longrightarrow>
        jwt_decode svc (jwt_encode svc claims key) key now =
          (if e \<le> now then Inl ExpiredSignatureError else Inr claims))"

section \<open>json.loads\<close>

text \<open>
  The decoder in two passes, tokens and then structure. It reads the JSON texts whose
  values are of type \<open>json\<close>. A text with a number literal that has a fraction or an
  exponent, with \<open>NaN\<close> or \<open>Infinity\<close>, or with a \<open>\<^verbatim>\<open>\u\<close>\<close> escape of a code point
  above 255 is outside the model: the result is \<open>Unmodelled\<close> there, and nothing is
  said about what Python returns. So it is for a text with an integer literal above
  the digit limit, on which \<open>json.loads\<close> raises a ValueError that is no
  JSONDecodeError, and for a text that opens more than \<open>nesting_limit\<close> containers
  inside each other, whether it closes them or not.
\<close>

datatype token =
    TLBrace | TRBrace | TLBracket | TRBracket | TComma | TColon
  | TString string | TInt int | TTrue | TFalse | TNull

text \<open>
  The result of the token pass. At a character that starts no token the pass stops
  with \<open>LexError\<close>, which carries the tokens read before it.
\<close>

datatype lexed = Tokens "token list" | LexError "token list" | LexUnmodelled

fun tcons :: "token \<Rightarrow> lexed \<Rightarrow> lexed" where
  "tcons t (Tokens ts) = Tokens (t # ts)"
| "tcons t (LexError ts) = LexError (t # ts)"
| "tcons t LexUnmodelled = LexUnmodelled"

definition is_ws :: "char \<Rightarrow> bool" where
  "is_ws c = (c = CHR 0x20 \<or> c = CHR 0x09 \<or> c = CHR 0x0A \<or> c = CHR 0x0D)"

definition is_digit :: "char \<Rightarrow> bool" where
  "is_digit c = (48 \<le> (of_char c :: nat) \<and> (of_char c :: nat) \<le> 57)"

definition digit_val :: "char \<Rightarrow> nat" where
  "digit_val c = of_char c - 48"

definition is_hex :: "char \<Rightarrow> bool" where
  "is_hex c =
     (let n = of_char c :: nat
      in (48 \<le> n \<and> n \<le> 57) \<or> (65 \<le> n \<and> n \<le> 70) \<or> (97 \<le> n \<and> n \<le> 102))"

definition hex_val :: "char \<Rightarrow> nat" where
  "hex_val c =
     (let n = of_char c :: nat
      in if n \<le> 57 then n - 48 else if n \<le> 70 then n - 55 else n - 87)"

definition hex4 :: "string \<Rightarrow> nat" where
  "hex4 cs = foldl (\<lambda>a c. 16 * a + hex_val c) 0 cs"

text \<open>The character after a backslash, other than \<open>u\<close>.\<close>

definition unescape :: "char \<Rightarrow> char option" where
  "unescape e =
     (if e = CHR 0x22 then Some (CHR 0x22)
      else if e = CHR 0x5C then Some (CHR 0x5C)
      else if e = CHR ''/'' then Some (CHR ''/'')
      else if e = CHR ''b'' then Some (CHR 0x08)
      else if e = CHR ''f'' then Some (CHR 0x0C)
      else if e = CHR ''n'' then Some (CHR 0x0A)
      else if e = CHR ''r'' then Some (CHR 0x0D)
      else if e = CHR ''t'' then Some (CHR 0x09)
      else None)"

text \<open>
  Whether the text after the integer part of a number goes on with a fraction or an
  exponent, which makes the number a float.
\<close>

definition starts_float :: "string \<Rightarrow> bool" where
  "starts_float cs =
     (case cs of
        c # d # ds \<Rightarrow>
          (c = CHR ''.'' \<and> is_digit d)
          \<or> ((c = CHR ''e'' \<or> c = CHR ''E'')
              \<and> (is_digit d
                  \<or> ((d = CHR ''+'' \<or> d = CHR ''-'')
                      \<and> (case ds of x # xs \<Rightarrow> is_digit x | [] \<Rightarrow> False))))
      | other \<Rightarrow> False)"

definition signed :: "bool \<Rightarrow> nat \<Rightarrow> int" where
  "signed neg n = (if neg then - int n else int n)"

function lex :: "string \<Rightarrow> lexed"
  and lex_str :: "string \<Rightarrow> string \<Rightarrow> lexed"
  and lex_digits :: "bool \<Rightarrow> nat \<Rightarrow> string \<Rightarrow> lexed"
where
  "lex [] = Tokens []"
| "lex (c # cs) =
     (if is_ws c then lex cs
      else if c = CHR ''{'' then tcons TLBrace (lex cs)
      else if c = CHR ''}'' then tcons TRBrace (lex cs)
      else if c = CHR ''['' then tcons TLBracket (lex cs)
      else if c = CHR '']'' then tcons TRBracket (lex cs)
      else if c = CHR '','' then tcons TComma (lex cs)
      else if c = CHR '':'' then tcons TColon (lex cs)
      else if c = CHR 0x22 then lex_str [] cs
      else if c = CHR ''n'' then
        (if take 3 cs = ''ull'' then tcons TNull (lex (drop 3 cs)) else LexError [])
      else if c = CHR ''t'' then
        (if take 3 cs = ''rue'' then tcons TTrue (lex (drop 3 cs)) else LexError [])
      else if c = CHR ''f'' then
        (if take 4 cs = ''alse'' then tcons TFalse (lex (drop 4 cs)) else LexError [])
      else if c = CHR ''0'' then
        (if starts_float cs then LexUnmodelled else tcons (TInt 0) (lex cs))
      else if is_digit c then lex_digits False (digit_val c) cs
      else if c = CHR ''-'' then
        (case cs of
           [] \<Rightarrow> LexError []
         | d # ds \<Rightarrow>
             if d = CHR ''0'' then
               (if starts_float ds then LexUnmodelled else tcons (TInt 0) (lex ds))
             else if is_digit d then lex_digits True (digit_val d) ds
             else if take 8 cs = ''Infinity'' then LexUnmodelled
             else LexError [])
      else if take 3 (c # cs) = ''NaN'' \<or> take 8 (c # cs) = ''Infinity'' then LexUnmodelled
      else LexError [])"
| "lex_str acc [] = LexError []"
| "lex_str acc (c # cs) =
     (if c = CHR 0x22 then tcons (TString (rev acc)) (lex cs)
      else if c = CHR 0x5C then
        (case cs of
           [] \<Rightarrow> LexError []
         | e # es \<Rightarrow>
             if e = CHR ''u'' then
               (if 4 \<le> length es \<and> list_all is_hex (take 4 es) then
                  (if hex4 (take 4 es) < 256 then
                     lex_str (char_of (hex4 (take 4 es)) # acc) (drop 4 es)
                   else LexUnmodelled)
                else LexError [])
             else
               (case unescape e of
                  None \<Rightarrow> LexError []
                | Some ch \<Rightarrow> lex_str (ch # acc) es))
      else if (of_char c :: nat) < 32 then LexError []
      else lex_str (c # acc) cs)"
| "lex_digits neg n [] =
     (if max_str_digits < length (dec_digits n) then LexUnmodelled
      else Tokens [TInt (signed neg n)])"
| "lex_digits neg n (c # cs) =
     (if is_digit c then lex_digits neg (10 * n + digit_val c) cs
      else if starts_float (c # cs) then LexUnmodelled
      else if max_str_digits < length (dec_digits n) then LexUnmodelled
      else tcons (TInt (signed neg n)) (lex (c # cs)))"
  by pat_completeness auto
termination
  by (relation "measure (\<lambda>x. case x of
        Inl cs \<Rightarrow> 2 * length cs
      | Inr (Inl (acc, cs)) \<Rightarrow> 2 * length cs
      | Inr (Inr (neg, n, cs)) \<Rightarrow> 2 * length cs + 1)") auto

text \<open>
  The structure pass keeps a stack of the containers that are open. A key that comes
  again in an object replaces the value of its first occurrence, as \<open>dict\<close> does.
\<close>

datatype frame = InList "json list" | InDict pydict "string option"

datatype expect = Value | ValueOrClose | KeyOrClose | Key | Colon | CommaOrClose | End json

fun reduce :: "json \<Rightarrow> frame list \<Rightarrow> (expect \<times> frame list) option" where
  "reduce v [] = Some (End v, [])"
| "reduce v (InList xs # st) = Some (CommaOrClose, InList (v # xs) # st)"
| "reduce v (InDict ps (Some k) # st) = Some (CommaOrClose, InDict (dict_set ps k v) None # st)"
| "reduce v (InDict ps None # st) = None"

fun start_value :: "frame list \<Rightarrow> token \<Rightarrow> (expect \<times> frame list) option" where
  "start_value st (TString s) = reduce (JStr s) st"
| "start_value st (TInt i) = reduce (JInt i) st"
| "start_value st TTrue = reduce (JBool True) st"
| "start_value st TFalse = reduce (JBool False) st"
| "start_value st TNull = reduce JNull st"
| "start_value st TLBracket = Some (ValueOrClose, InList [] # st)"
| "start_value st TLBrace = Some (KeyOrClose, InDict [] None # st)"
| "start_value st other = None"

fun close_list :: "frame list \<Rightarrow> (expect \<times> frame list) option" where
  "close_list (InList xs # st) = reduce (JList (rev xs)) st"
| "close_list other = None"

fun close_dict :: "frame list \<Rightarrow> (expect \<times> frame list) option" where
  "close_dict (InDict ps None # st) = reduce (JDict ps) st"
| "close_dict other = None"

fun open_key :: "frame list \<Rightarrow> string \<Rightarrow> (expect \<times> frame list) option" where
  "open_key (InDict ps None # st) k = Some (Colon, InDict ps (Some k) # st)"
| "open_key other k = None"

fun after_comma :: "frame list \<Rightarrow> (expect \<times> frame list) option" where
  "after_comma (InList xs # st) = Some (Value, InList xs # st)"
| "after_comma (InDict ps k # st) = Some (Key, InDict ps k # st)"
| "after_comma [] = None"

fun step :: "expect \<Rightarrow> frame list \<Rightarrow> token \<Rightarrow> (expect \<times> frame list) option" where
  "step Value st t = start_value st t"
| "step ValueOrClose st t = (if t = TRBracket then close_list st else start_value st t)"
| "step KeyOrClose st t =
     (case t of TRBrace \<Rightarrow> close_dict st | TString k \<Rightarrow> open_key st k | other \<Rightarrow> None)"
| "step Key st t = (case t of TString k \<Rightarrow> open_key st k | other \<Rightarrow> None)"
| "step Colon st t = (if t = TColon then Some (Value, st) else None)"
| "step CommaOrClose st t =
     (case t of
        TComma \<Rightarrow> after_comma st
      | TRBracket \<Rightarrow> close_list st
      | TRBrace \<Rightarrow> close_dict st
      | other \<Rightarrow> None)"
| "step (End v) st t = None"

fun run :: "expect \<Rightarrow> frame list \<Rightarrow> token list \<Rightarrow> json option" where
  "run e st [] = (case e of End v \<Rightarrow> Some v | other \<Rightarrow> None)"
| "run e st (t # ts) = (case step e st t of None \<Rightarrow> None | Some (e', st') \<Rightarrow> run e' st' ts)"

text \<open>
  Whether the tokens open a container when \<open>nesting_limit\<close> containers are open
  already; \<open>d\<close> is the number of containers open so far.
\<close>

fun too_deep :: "nat \<Rightarrow> token list \<Rightarrow> bool" where
  "too_deep d [] = False"
| "too_deep d (t # ts) =
     (if t = TLBracket \<or> t = TLBrace then nesting_limit \<le> d \<or> too_deep (Suc d) ts
      else if t = TRBracket \<or> t = TRBrace then too_deep (d - 1) ts
      else too_deep d ts)"

datatype decoded = Decoded json | JSONDecodeError | Unmodelled

definition json_loads :: "string \<Rightarrow> decoded" where
  "json_loads s =
     (case lex s of
        LexUnmodelled \<Rightarrow> Unmodelled
      | LexError ts \<Rightarrow> if too_deep 0 ts then Unmodelled else JSONDecodeError
      | Tokens ts \<Rightarrow>
          if too_deep 0 ts then Unmodelled
          else (case run Value [] ts of None \<Rightarrow> JSONDecodeError | Some v \<Rightarrow> Decoded v))"

text \<open>\<open>ModelProvider.decrypt_credentials\<close>.\<close>

definition decrypt_credentials :: "string \<Rightarrow> decoded" where
  "decrypt_credentials encrypted = json_loads encrypted"

section \<open>OpenAIProvider.stream_invoke\<close>

text \<open>Subscription and \<open>get\<close> on a decoded value, with the exception Python raises.\<close>

definition key_repr :: "string \<Rightarrow> string" where
  "key_repr k = [CHR 0x27] @ k @ [CHR 0x27]"

definition not_subscriptable :: "json \<Rightarrow> exn" where
  "not_subscriptable v =
     TypeError ([CHR 0x27] @ type_name v @ [CHR 0x27] @ '' object is not subscriptable'')"

text \<open>\<open>v[key]\<close> for a string key; the argument of the KeyError is kept as its \<open>repr\<close>.\<close>

fun subscript_key :: "json \<Rightarrow> string \<Rightarrow> exn + json" where
  "subscript_key (JDict d) k =
     (case map_of d k of None \<Rightarrow> Inl (KeyError (key_repr k)) | Some v \<Rightarrow> Inr v)"
| "subscript_key (JList xs) k =
     Inl (TypeError ''list indices must be integers or slices, not str'')"
| "subscript_key (JStr s) k =
     Inl (TypeError (''string indices must be integers, not '' @ key_repr ''str''))"
| "subscript_key v k = Inl (not_subscriptable v)"

text \<open>\<open>v[0]\<close>.\<close>

fun subscript_zero :: "json \<Rightarrow> exn + json" where
  "subscript_zero (JList []) = Inl (IndexError ''list index out of range'')"
| "subscript_zero (JList (x # xs)) = Inr x"
| "subscript_zero (JStr []) = Inl (IndexError ''string index out of range'')"
| "subscript_zero (JStr (c # cs)) = Inr (JStr [c])"
| "subscript_zero (JDict d) = Inl (KeyError ''0'')"
| "subscript_zero v = Inl (not_subscriptable v)"

text \<open>\<open>v.get(key, default)\<close>.\<close>

fun py_get :: "json \<Rightarrow> string \<Rightarrow> json \<Rightarrow> exn + json" where
  "py_get (JDict d) k dflt = Inr (dict_get_default d k dflt)"
| "py_get v k dflt = Inl (no_attribute v ''get'')"

record LLMResultChunk =
  chunk_model :: json
  chunk_delta :: json
  chunk_finish_reason :: json
  chunk_index :: json

text \<open>
  The body of the \<open>try\<close> after \<open>json.loads\<close>: the chunk to yield, if any, or the
  exception that escapes (none of them is a \<open>JSONDecodeError\<close>).
\<close>

definition chunk_of_data :: "json \<Rightarrow> exn + LLMResultChunk option" where
  "chunk_of_data data =
     (case subscript_key data ''choices'' of
        Inl e \<Rightarrow> Inl e
      | Inr choices \<Rightarrow>
     (case subscript_zero choices of
        Inl e \<Rightarrow> Inl e
      | Inr choice \<Rightarrow>
     (case py_get choice ''delta'' (JDict []) of
        Inl e \<Rightarrow> Inl e
      | Inr delta \<Rightarrow>
     (case py_get delta ''content'' (JStr []) of
        Inl e \<Rightarrow> Inl e
      | Inr content \<Rightarrow>
          if truthy content then
            (case subscript_key data ''model'' of
               Inl e \<Rightarrow> Inl e
             | Inr model \<Rightarrow>
            (case py_get choice ''finish_reason'' JNull of
               Inl e \<Rightarrow> Inl e
             | Inr reason \<Rightarrow>
            (case py_get choice ''index'' (JInt 0) of
               Inl e \<Rightarrow> Inl e
             | Inr ix \<Rightarrow>
                 Inr (Some \<lparr>chunk_model = model, chunk_delta = content,
                             chunk_finish_reason = reason, chunk_index = ix\<rparr>))))
          else Inr None))))"

text \<open>
  How the generator ends: its loop is over, an exception escapes it, or a line is
  outside the model of \<open>json.loads\<close>.
\<close>

datatype stream_end = Finished | Raised exn | OutsideModel

text \<open>
  The loop over \<open>response.iter_lines()\<close>, with \<open>json.loads\<close> as the argument \<open>loads\<close>:
  the chunks yielded, in order, and how the generator ends.
\<close>

fun stream_lines :: "(string \<Rightarrow> decoded) \<Rightarrow> string list \<Rightarrow> LLMResultChunk list \<times> stream_end" where
  "stream_lines loads [] = ([], Finished)"
| "stream_lines loads (line # rest) =
     (if line = [] then stream_lines loads rest
      else
        let line = (if take 6 line = ''data: '' then drop 6 line else line)
        in if line = ''[DONE]'' then ([], Finished)
           else
             (case loads line of
                JSONDecodeError \<Rightarrow> stream_lines loads rest
              | Unmodelled \<Rightarrow> ([], OutsideModel)
              | Decoded data \<Rightarrow>
                  (case chunk_of_data data of
                     Inl e \<Rightarrow> ([], Raised e)
                   | Inr None \<Rightarrow> stream_lines loads rest
                   | Inr (Some chunk) \<Rightarrow>
                       (chunk # fst (stream_lines loads rest),
                        snd (stream_lines loads rest)))))"

text \<open>
  \<open>stream_invoke\<close>. The streaming HTTP client is outside the program:
  \<open>http_stream url api_key\<close> is the text of the \<open>httpx.HTTPError\<close> when the request
  fails, and the lines of the response otherwise. The request body, made of the model
  configuration and the messages, plays no part in what follows and is left out.
\<close>

type_synonym http_streamer = "string \<Rightarrow> json \<Rightarrow> string + string list"

definition stream_invoke ::
  "(string \<Rightarrow> decoded) \<Rightarrow> http_streamer \<Rightarrow> pydict \<Rightarrow> (string \<times> string) list \<Rightarrow>
   LLMResultChunk list \<times> stream_end" where
  "stream_invoke loads http_stream credentials messages =
     (let api_key = dict_get_default credentials ''api_key'' JNull;
          base_url = dict_get_default credentials ''base_url'' (JStr ''https://api.openai.com/v1'')
      in if \<not> truthy api_key then ([], Raised (ValueError ''api_key is required''))
         else if messages = [] then ([], Raised (ValueError ''messages cannot be empty''))
         else
           (case base_url of
              JStr u \<Rightarrow>
                (case http_stream (py_rstrip_slash u @ ''/chat/completions'') api_key of
                   Inl msg \<Rightarrow> ([], Raised (ValueError (''Failed to stream invoke model: '' @ msg)))
                 | Inr lines \<Rightarrow> stream_lines loads lines)
            | other \<Rightarrow> ([], Raised (no_attribute other ''rstrip''))))"

section \<open>The stream as the specification words it\<close>

text \<open>
  Empty lines are skipped, the \<open>data: \<close> prefix is stripped, and the stream ends at the
  first line that is \<open>[DONE]\<close>.
\<close>

definition strip_data_prefix :: "string \<Rightarrow> string" where
  "strip_data_prefix l = (if take 6 l = ''data: '' then drop 6 l else l)"

definition sse_payloads :: "string list \<Rightarrow> string list" where
  "sse_payloads lines =
     takeWhile (\<lambda>l. l \<noteq> ''[DONE]'') (map strip_data_prefix (filter (\<lambda>l. l \<noteq> []) lines))"

text \<open>The member of an object, or the default when there is none.\<close>

definition field :: "json \<Rightarrow> string \<Rightarrow> json \<Rightarrow> json" where
  "field v k dflt = (case v of JDict d \<Rightarrow> dict_get_default d k dflt | other \<Rightarrow> dflt)"

definition first_choice :: "json \<Rightarrow> json" where
  "first_choice data = (case field data ''choices'' JNull of JList (c # cs) \<Rightarrow> c | other \<Rightarrow> JNull)"

definition delta_content :: "json \<Rightarrow> json" where
  "delta_content data = field (field (first_choice data) ''delta'' (JDict [])) ''content'' (JStr [])"

text \<open>
  One chunk for a line that parses and whose \<open>delta.content\<close> is not empty, carrying the
  content, the model, the finish reason and the index; no chunk for any other line.
\<close>

definition sse_chunk :: "(string \<Rightarrow> decoded) \<Rightarrow> string \<Rightarrow> LLMResultChunk option" where
  "sse_chunk loads payload =
     (case loads payload of
        Decoded data \<Rightarrow>
          if truthy (delta_content data) then
            Some \<lparr>chunk_model = field data ''model'' JNull, chunk_delta = delta_content data,
                  chunk_finish_reason = field (first_choice data) ''finish_reason'' JNull,
                  chunk_index = field (first_choice data) ''index'' (JInt 0)\<rparr>
          else None
      | other \<Rightarrow> None)"

definition sse_chunks :: "(string \<Rightarrow> decoded) \<Rightarrow> string list \<Rightarrow> LLMResultChunk list" where
  "sse_chunks loads lines = List.map_filter (sse_chunk loads) (sse_payloads lines)"

text \<open>
  The shape of a decoded line that the loop body reads without an exception: an object
  whose \<open>choices\<close> is a list that starts with an object, whose \<open>delta\<close>, when present,
  is an object, and which has a \<open>model\<close> when the content is not empty.
\<close>

definition well_shaped :: "json \<Rightarrow> bool" where
  "well_shaped data =
     (case data of
        JDict d \<Rightarrow>
          (case map_of d ''choices'' of
             Some (JList (JDict c # cs)) \<Rightarrow>
               (case dict_get_default c ''delta'' (JDict []) of
                  JDict dd \<Rightarrow>
                    truthy (dict_get_default dd ''content'' (JStr [])) \<longrightarrow> map_of d ''model'' \<noteq> None
                | other \<Rightarrow> False)
           | other \<Rightarrow> False)
      | other \<Rightarrow> False)"

text \<open>
  The exceptions that reading a decoded line of another shape raises: a missing key, an
  empty list, a value that cannot be subscripted or has no \<open>get\<close>.
\<close>

fun shape_error :: "exn \<Rightarrow> bool" where
  "shape_error (KeyError m) = True"
| "shape_error (IndexError m) = True"
| "shape_error (TypeError m) = True"
| "shape_error (AttributeError m) = True"
| "shape_error e = False"

definition line_ok :: "(string \<Rightarrow> decoded) \<Rightarrow> string \<Rightarrow> bool" where
  "line_ok loads payload =
     (case loads payload of
        Decoded data \<Rightarrow> well_shaped data
      | JSONDecodeError \<Rightarrow> True
      | Unmodelled \<Rightarrow> False)"

section \<open>What json.dumps writes, as tokens\<close>

text \<open>
  The text that the encoder writes for a value that \<open>json.loads\<close> can return, the
  tokens of this text, and the values all of whose dictionaries have each key once, as
  every Python \<open>dict\<close> has.
\<close>

fun json_text :: "json \<Rightarrow> string" where
  "json_text JNull = ''null''"
| "json_text (JBool b) = (if b then ''true'' else ''false'')"
| "json_text (JInt i) = int_repr i"
| "json_text (JStr s) = encode_basestring_ascii s"
| "json_text (JList xs) = ''['' @ join_comma (map json_text xs) @ '']''"
| "json_text (JDict ps) =
     ''{'' @ join_comma (map (\<lambda>(k, v). encode_basestring_ascii k @ '': '' @ json_text v) ps)
     @ ''}''"

fun sep :: "token list list \<Rightarrow> token list" where
  "sep [] = []"
| "sep [x] = x"
| "sep (x # y # ys) = x @ TComma # sep (y # ys)"

fun toks :: "json \<Rightarrow> token list" where
  "toks JNull = [TNull]"
| "toks (JBool b) = [if b then TTrue else TFalse]"
| "toks (JInt i) = [TInt i]"
| "toks (JStr s) = [TString s]"
| "toks (JList xs) = TLBracket # sep (map toks xs) @ [TRBracket]"
| "toks (JDict ps) = TLBrace # sep (map (\<lambda>(k, v). TString k # TColon # toks v) ps) @ [TRBrace]"

fun distinct_keys :: "json \<Rightarrow> bool" where
  "distinct_keys (JList xs) = list_all distinct_keys xs"
| "distinct_keys (JDict ps) = (distinct (map fst ps) \<and> list_all (\<lambda>(k, v). distinct_keys v) ps)"
| "distinct_keys v = True"

text \<open>The structure pass after a complete value.\<close>

definition after_value :: "json \<Rightarrow> frame list \<Rightarrow> token list \<Rightarrow> json option" where
  "after_value v st ts = (case reduce v st of None \<Rightarrow> None | Some (e, st') \<Rightarrow> run e st' ts)"

text \<open>Tokens put in front of what the token pass gives for the rest of a text.\<close>

definition tprepend :: "token list \<Rightarrow> lexed \<Rightarrow> lexed" where
  "tprepend ts r = foldr tcons ts r"

text \<open>
  What can follow a value in the text that the encoder writes: nothing, a comma
  or a closing bracket; and what must follow the digits of an integer for it to end
  there as an integer.
\<close>

definition delimited :: "string \<Rightarrow> bool" where
  "delimited rest =
     (case rest of [] \<Rightarrow> True | c # cs \<Rightarrow> c = CHR '','' \<or> c = CHR '']'' \<or> c = CHR ''}'')"

definition int_end :: "string \<Rightarrow> bool" where
  "int_end rest = ((case rest of [] \<Rightarrow> True | c # cs \<Rightarrow> \<not> is_digit c) \<and> \<not> starts_float rest)"

section \<open>Example stores\<close>

definition account_u1 :: Account where
  "account_u1 = \<lparr>account_id = ''u1'', account_email = ''a@x.com'', account_password_hash = ''h1'',
     account_name = ''A'', account_status = ACTIVE, account_last_login_at = None\<rparr>"

definition account_u2 :: Account where
  "account_u2 = \<lparr>account_id = ''u2'', account_email = ''b@x.com'', account_password_hash = ''h2'',
     account_name = ''B'', account_status = BANNED, account_last_login_at = None\<rparr>"

definition tenant_t1 :: Tenant where
  "tenant_t1 = \<lparr>tenant_id = ''t1'', tenant_name = ''T1'', tenant_plan = FREE,
     tenant_status = TENANT_ACTIVE\<rparr>"


text \<open>Tenant T1 with its owner u1 and the plain member u2.\<close>

definition db_t1 :: db where
  "db_t1 = \<lparr>accounts = [account_u1, account_u2], tenants = [tenant_t1],
     joins = [\<lparr>join_tenant_id = ''t1'', join_account_id = ''u1'', join_role = OWNER\<rparr>,
              \<lparr>join_tenant_id = ''t1'', join_account_id = ''u2'', join_role = MEMBER\<rparr>],
     apps = [], providers = []\<rparr>"

definition account_u3 :: Account where
  "account_u3 = \<lparr>account_id = ''u3'', account_email = ''c@x.com'', account_password_hash = ''h3'',
     account_name = ''C'', account_status = INACTIVE, account_last_login_at = None\<rparr>"

definition db_three_accounts :: db where
  "db_three_accounts = \<lparr>accounts = [account_u1, account_u2, account_u3], tenants = [],
     joins = [], apps = [], providers = []\<rparr>"

text \<open>
  A token codec for the examples: a token is the claims with the key that signed them,
  and decoding checks the key and then the expiry.
\<close>

definition example_decode :: "pydict \<times> string \<Rightarrow> string \<Rightarrow> int \<Rightarrow> jwt_error + pydict" where
  "example_decode token key now =
     (if snd token \<noteq> key then Inl InvalidTokenError
      else case dict_get (fst token) ''exp'' of
        Some (JInt e) \<Rightarrow> if e \<le> now then Inl ExpiredSignatureError else Inr (fst token)
      | other \<Rightarrow> Inr (fst token))"

definition example_service :: "(pydict \<times> string) AuthService" where
  "example_service =
     \<lparr>secret_key = ''change-me-in-production'', token_expiry_hours = 24,
      jwt_encode = (\<lambda>claims key. (claims, key)), jwt_decode = example_decode,
      check_password_hash = (\<lambda>h p. h = ''hash:'' @ p), uuid_of_str = Inr\<rparr>"

text \<open>Tenant T1 with a provider named gpt, active or not.\<close>

definition provider_gpt :: "bool \<Rightarrow> ModelProvider" where
  "provider_gpt active =
     \<lparr>provider_id = ''p1'', provider_tenant_id = ''t1'', provider_name = ''gpt'',
      provider_type = OPENAI, encrypted_credentials = ''{}'', is_active = active,
      provider_config = JDict [], quota_config = JDict [], created_by = None,
      updated_by = None\<rparr>"

definition db_gpt :: "bool \<Rightarrow> db" where
  "db_gpt active = db_t1\<lparr>providers := [provider_gpt active]\<rparr>"

text \<open>An HTTP client whose every request succeeds, and one whose every request fails.\<close>

definition http_ok :: http_client where
  "http_ok url api_key = None"

definition http_unauthorized :: http_client where
  "http_unauthorized url api_key = Some ''401 Unauthorized''"

text \<open>The app that u1 creates in T1 with the name Bot and the defaults.\<close>

definition app_a1 :: App where
  "app_a1 = \<lparr>app_id = ''a1'', app_tenant_id = ''t1'', app_name = ''Bot'',
     app_description = None, app_mode = CHAT, app_icon = default_icon,
     app_icon_background = ''#E0F2FE'', app_enable_site = True, app_enable_api = True,
     app_status = NORMAL, app_created_by = ''u1''\<rparr>"

text \<open>Lines of a streamed response, and a streaming client that returns given lines.\<close>

definition line_hi :: string where
  \<open>line_hi = ''data: {"model": "m", "choices": [{"delta": {"content": "Hi"}, "index": 0}]}''\<close>

definition chunk_hi :: LLMResultChunk where
  "chunk_hi = \<lparr>chunk_model = JStr ''m'', chunk_delta = JStr ''Hi'', chunk_finish_reason = JNull,
     chunk_index = JInt 0\<rparr>"

definition line_no_choices :: string where
  \<open>line_no_choices = ''data: {}''\<close>

definition line_empty_choices :: string where
  \<open>line_empty_choices = ''data: {"choices": []}''\<close>

definition http_lines :: "string list \<Rightarrow> http_streamer" where
  "http_lines ls url api_key = Inr ls"

text \<open>
  An empty line, a line with content, a line that is not JSON, the end marker, and a
  line after it.
\<close>

definition lines_mixed :: "string list" where
  "lines_mixed = ['''', line_hi, ''data: not json'', ''data: [DONE]'', line_no_choices]"

text \<open>Credentials, and the texts that \<open>json.dumps\<close> writes for three dictionaries.\<close>

definition example_credentials :: pydict where
  "example_credentials =
     [(''api_key'', JStr ''sk-test-key''), (''base_url'', JStr ''https://api.openai.com/v1''),
      (''timeout'', JInt 30), (''organizations'', JList [JStr ''org-1'', JNull])]"

definition example_credentials_text :: string where
  \<open>example_credentials_text =
     ''{"api_key": "sk-test-key", "base_url": "https://api.openai.com/v1", "timeout": 30, "organizations": ["org-1", null]}''\<close>

definition text_int_key :: string where
  \<open>text_int_key = ''{"1": "a"}''\<close>

definition text_tuple :: string where
  \<open>text_tuple = ''{"k": [1, 2]}''\<close>

section \<open>Role hierarchy\<close>

text \<open>
  C2. \<open>check_permission\<close> is true exactly when the account has a membership role in the
  tenant and that role is owner, or admin with admin or member required, or member with
  member required; without a membership it is false.
\<close>

theorem check_permission_truth_table:
  "check_permission d t a required =
     (\<exists>role. get_member_role d t a = Some role \<and>
        (role = OWNER \<or>
         (role = ADMIN \<and> (required = ADMIN \<or> required = MEMBER)) \<or>
         (role = MEMBER \<and> required = MEMBER)))
   \<and> (get_member_role d t a = None \<longrightarrow> \<not> check_permission d t a required)"
proof (cases "get_member_role d t a")
  case None
  then show ?thesis by (simp add: check_permission_def)
next
  case (Some role)
  then show ?thesis by (cases role) (auto simp: check_permission_def)
qed

theorem check_permission_truth_table_witness:
  "get_member_role \<lparr>accounts = [], tenants = [], joins = [], apps = [], providers = []\<rparr> ''t1'' ''u1'' = None
   \<and> \<not> check_permission \<lparr>accounts = [], tenants = [], joins = [], apps = [], providers = []\<rparr> ''t1'' ''u1'' MEMBER"
  using check_permission_truth_table
    [of "\<lparr>accounts = [], tenants = [], joins = [], apps = [], providers = []\<rparr>" "''t1''" "''u1''" MEMBER]
  by (simp add: get_member_role_def get_member_join_def first_where_def)

section \<open>Owner invariant\<close>


lemma find_append_None: "List.find p xs = None \<Longrightarrow> List.find p (xs @ ys) = List.find p ys"
  by (induction xs) (auto split: if_splits)

















lemma db_t1_lookups:
  "tenant_get_by_id db_t1 ''t1'' = Some tenant_t1"
  "get_member_role db_t1 ''t1'' ''u1'' = Some OWNER"
  "get_member_role db_t1 ''t1'' ''u2'' = Some MEMBER"
  by (simp_all add: db_t1_def tenant_t1_def tenant_get_by_id_def get_member_role_def
      get_member_join_def first_where_def is_join_def)




section \<open>Adding a provider\<close>

lemma add_provider_validation_raises:
  assumes "validate_credentials http_get ptype credentials = Inl e"
  shows "\<exists>err. add_provider http_get d new_id t name ptype credentials config quota creator
           = Inl err"
  using assms by (auto simp: add_provider_def split: option.splits)

lemma add_provider_invalid:
  assumes "validate_credentials http_get ptype credentials = Inl e"
      and "tenant_get_by_id d t \<noteq> None" and "py_strip name \<noteq> []" and "length name \<le> 100"
      and "get_active_by_tenant_and_name d t name = None" and "credentials \<noteq> []"
  shows "add_provider http_get d new_id t name ptype credentials config quota creator
           = Inl (BusinessLogicError (''Invalid credentials: '' @ exn_str e))"
proof -
  from assms(3) have "name \<noteq> []" by (auto simp: py_strip_def)
  with assms show ?thesis by (auto simp: add_provider_def split: option.splits)
qed

text \<open>
  C3 (as amended). Whenever the adapter's \<open>validate_credentials\<close> raises on the given
  credentials, \<open>add_provider\<close> raises as well, so that no row is created: a call that
  raises hands back no new store, and every \<open>raise\<close> of \<open>add_provider\<close> comes before
  its only write. When moreover the tenant exists, the name is valid and not used by an
  active provider of the tenant, and the credentials are not empty, the exception is the
  BusinessLogicError whose message is \<open>Invalid credentials: \<close> followed by the text of
  the adapter's exception.
\<close>

theorem add_provider_credential_failure:
  assumes "validate_credentials http_get ptype credentials = Inl e"
  shows "(\<exists>err. add_provider http_get d new_id t name ptype credentials config quota creator
            = Inl err)
    \<and> (tenant_get_by_id d t \<noteq> None \<and> py_strip name \<noteq> [] \<and> length name \<le> 100
         \<and> get_active_by_tenant_and_name d t name = None \<and> credentials \<noteq> [] \<longrightarrow>
        add_provider http_get d new_id t name ptype credentials config quota creator
          = Inl (BusinessLogicError (''Invalid credentials: '' @ exn_str e)))"
  using add_provider_validation_raises [OF assms] add_provider_invalid [OF assms] by blast

lemma db_t1_no_provider:
  "get_active_by_tenant_and_name db_t1 ''t1'' ''gpt'' = None"
  "tenant_get_by_id db_t1 ''t1'' \<noteq> None"
  "py_strip ''gpt'' \<noteq> []"
  by (simp_all add: get_active_by_tenant_and_name_def tenant_get_by_id_def first_where_def
      db_t1_def tenant_t1_def py_strip_def py_isspace_def)

lemma validate_unauthorized:
  "validate_credentials http_unauthorized OPENAI [(''api_key'', JStr ''sk-bad'')] =
     Inl (ValueError ''Failed to validate credentials: 401 Unauthorized'')"
  by (simp add: validate_credentials_def openai_validate_credentials_def dict_get_default_def
      http_unauthorized_def)

theorem add_provider_credential_failure_witness:
  "validate_credentials http_unauthorized OPENAI [(''api_key'', JStr ''sk-bad'')] =
     Inl (ValueError ''Failed to validate credentials: 401 Unauthorized'')
   \<and> tenant_get_by_id db_t1 ''t1'' \<noteq> None \<and> py_strip ''gpt'' \<noteq> [] \<and> length ''gpt'' \<le> 100
   \<and> get_active_by_tenant_and_name db_t1 ''t1'' ''gpt'' = None
   \<and> add_provider http_unauthorized db_t1 ''p1'' ''t1'' ''gpt'' OPENAI
        [(''api_key'', JStr ''sk-bad'')] None None None
      = Inl (BusinessLogicError
               ''Invalid credentials: Failed to validate credentials: 401 Unauthorized'')"
proof -
  have pre: "tenant_get_by_id db_t1 ''t1'' \<noteq> None" "py_strip ''gpt'' \<noteq> []"
    "length ''gpt'' \<le> 100" "get_active_by_tenant_and_name db_t1 ''t1'' ''gpt'' = None"
    by (simp_all add: db_t1_no_provider)
  show ?thesis
    using add_provider_credential_failure [OF validate_unauthorized, where d = db_t1
        and t = "''t1''" and name = "''gpt''" and new_id = "''p1''" and config = None
        and quota = None and creator = None] pre validate_unauthorized
    by simp
qed

text \<open>
  The claim as first stated fails on empty credentials: the adapter raises on them, but
  \<open>add_provider\<close> stops earlier, with the ValidationError.
\<close>

theorem add_provider_credential_failure_counterexample:
  "validate_credentials http_ok OPENAI [] = Inl (ValueError ''api_key is required'')
   \<and> add_provider http_ok db_t1 ''p1'' ''t1'' ''gpt'' OPENAI [] None None None
      = Inl (ValidationError ''Credentials are required'')"
  by (simp add: validate_credentials_def openai_validate_credentials_def dict_get_default_def
      add_provider_def db_t1_lookups db_t1_no_provider)

lemma active_duplicate_found:
  assumes "\<exists>p \<in> set (providers d).
             provider_tenant_id p = t \<and> provider_name p = name \<and> is_active p"
  shows "get_active_by_tenant_and_name d t name \<noteq> None"
  using assms by (auto simp: get_active_by_tenant_and_name_def first_where_def find_None_iff)

lemma no_active_duplicate:
  assumes "\<forall>p \<in> set (providers d).
             provider_tenant_id p = t \<and> provider_name p = name \<longrightarrow> \<not> is_active p"
  shows "get_active_by_tenant_and_name d t name = None"
  using assms by (auto simp: get_active_by_tenant_and_name_def first_where_def find_None_iff)

text \<open>
  C4. For an existing tenant and a valid name, \<open>add_provider\<close> raises the
  ResourceConflictError when some provider of the tenant with that name is active; and
  when every provider of the tenant with that name is inactive, the credentials are not
  empty and pass the adapter's validation, and the fresh identifier is not in the table,
  it returns a new row with that name, of that tenant, with \<open>is_active\<close> true, appended
  to the table.
\<close>

theorem add_provider_active_name_uniqueness:
  assumes "tenant_get_by_id d t \<noteq> None" and "py_strip name \<noteq> []" and "length name \<le> 100"
  shows "((\<exists>p \<in> set (providers d).
             provider_tenant_id p = t \<and> provider_name p = name \<and> is_active p) \<longrightarrow>
          add_provider http_get d new_id t name ptype credentials config quota creator =
            Inl (ResourceConflictError
                   (''Provider with name '' @ [CHR 0x27] @ name @ [CHR 0x27]
                    @ '' already exists'')))
    \<and> ((\<forall>p \<in> set (providers d).
             provider_tenant_id p = t \<and> provider_name p = name \<longrightarrow> \<not> is_active p)
         \<and> credentials \<noteq> [] \<and> validate_credentials http_get ptype credentials = Inr ok
         \<and> new_id \<notin> provider_id ` set (providers d) \<longrightarrow>
        (\<exists>d' p. add_provider http_get d new_id t name ptype credentials config quota creator
                   = Inr (d', p)
               \<and> providers d' = providers d @ [p] \<and> is_active p
               \<and> provider_name p = name \<and> provider_tenant_id p = t \<and> provider_id p = new_id))"
proof -
  from assms(2) have ne: "name \<noteq> []" by (auto simp: py_strip_def)
  have conflict: "add_provider http_get d new_id t name ptype credentials config quota creator =
      Inl (ResourceConflictError
             (''Provider with name '' @ [CHR 0x27] @ name @ [CHR 0x27] @ '' already exists''))"
    if "\<exists>p \<in> set (providers d).
          provider_tenant_id p = t \<and> provider_name p = name \<and> is_active p"
    using active_duplicate_found [OF that] assms ne
    by (auto simp: add_provider_def split: option.splits)
  have success: "\<exists>d' p. add_provider http_get d new_id t name ptype credentials config quota
        creator = Inr (d', p)
      \<and> providers d' = providers d @ [p] \<and> is_active p
      \<and> provider_name p = name \<and> provider_tenant_id p = t \<and> provider_id p = new_id"
    if "\<forall>p \<in> set (providers d).
          provider_tenant_id p = t \<and> provider_name p = name \<longrightarrow> \<not> is_active p"
      and "credentials \<noteq> []" and "validate_credentials http_get ptype credentials = Inr ok"
      and "new_id \<notin> provider_id ` set (providers d)"
    using no_active_duplicate [OF that(1)] that(2-4) assms ne
    by (auto simp: add_provider_def provider_repo_create_def split: option.splits)
  from conflict success show ?thesis by blast
qed

lemma validate_ok_example:
  "validate_credentials http_ok OPENAI [(''api_key'', JStr ''sk-1'')] = Inr True"
  by (simp add: validate_credentials_def openai_validate_credentials_def dict_get_default_def
      http_ok_def)

lemma db_gpt_lookups:
  "tenant_get_by_id (db_gpt b) ''t1'' \<noteq> None"
  "providers (db_gpt b) = [provider_gpt b]"
  "provider_tenant_id (provider_gpt b) = ''t1''"
  "provider_name (provider_gpt b) = ''gpt''"
  "is_active (provider_gpt b) = b"
  "provider_id (provider_gpt b) = ''p1''"
  by (simp_all add: db_gpt_def provider_gpt_def db_t1_def tenant_get_by_id_def first_where_def
      tenant_t1_def)

theorem add_provider_active_name_uniqueness_witness:
  "tenant_get_by_id (db_gpt True) ''t1'' \<noteq> None \<and> py_strip ''gpt'' \<noteq> [] \<and> length ''gpt'' \<le> 100
   \<and> add_provider http_ok (db_gpt True) ''p2'' ''t1'' ''gpt'' OPENAI
        [(''api_key'', JStr ''sk-1'')] None None None
      = Inl (ResourceConflictError
               (''Provider with name '' @ [CHR 0x27] @ ''gpt'' @ [CHR 0x27] @ '' already exists''))
   \<and> (\<exists>d' p. add_provider http_ok (db_gpt False) ''p2'' ''t1'' ''gpt'' OPENAI
                 [(''api_key'', JStr ''sk-1'')] None None None = Inr (d', p)
             \<and> providers d' = [provider_gpt False, p] \<and> is_active p)"
proof -
  have pre: "py_strip ''gpt'' \<noteq> []" "length ''gpt'' \<le> 100"
    by (simp_all add: db_t1_no_provider)
  show ?thesis
    using add_provider_active_name_uniqueness [OF db_gpt_lookups(1) [of True] pre,
        where http_get = http_ok and new_id = "''p2''" and ptype = OPENAI
        and credentials = "[(''api_key'', JStr ''sk-1'')]" and config = None and quota = None
        and creator = None and ok = True]
      add_provider_active_name_uniqueness [OF db_gpt_lookups(1) [of False] pre,
        where http_get = http_ok and new_id = "''p2''" and ptype = OPENAI
        and credentials = "[(''api_key'', JStr ''sk-1'')]" and config = None and quota = None
        and creator = None and ok = True]
      validate_ok_example pre
    by (simp add: db_gpt_lookups) blast
qed

section \<open>Archiving an app\<close>

lemma update_first_append_last:
  "\<forall>x \<in> set xs. \<not> p x \<Longrightarrow> p y \<Longrightarrow> update_first p f (xs @ [y]) = xs @ [f y]"
  by (induction xs) auto

lemma is_member_apps_update [simp]: "is_member (d\<lparr>apps := xs\<rparr>) t a = is_member d t a"
  by (simp add: is_member_def)

lemma tenant_get_apps_update [simp]:
  "tenant_get_by_id (d\<lparr>apps := xs\<rparr>) t = tenant_get_by_id d t"
  by (simp add: tenant_get_by_id_def)

lemma create_app_result:
  assumes "create_app d new_id t creator name mode description icon background = Inr (d1, app)"
  shows "d1 = d\<lparr>apps := apps d @ [app]\<rparr>" and "app_id app = new_id"
    and "\<forall>x \<in> set (apps d). app_id x \<noteq> new_id" and "app_status app = NORMAL"
    and "app_tenant_id app = t" and "tenant_get_by_id d t \<noteq> None"
  using assms
  by (auto simp: create_app_def app_repo_create_def split: if_splits option.splits)

lemma app_get_by_id_last:
  "\<forall>x \<in> set xs. app_id x \<noteq> app_id y \<Longrightarrow>
   app_get_by_id (d\<lparr>apps := xs @ [y]\<rparr>) (app_id y) = Some y"
proof -
  assume "\<forall>x \<in> set xs. app_id x \<noteq> app_id y"
  then have "List.find (\<lambda>a. app_id a = app_id y) xs = None"
    by (auto simp: find_None_iff)
  then show ?thesis
    by (simp add: app_get_by_id_def first_where_def find_append_None)
qed

lemma set_status_last:
  assumes "\<forall>x \<in> set xs. app_id x \<noteq> app_id y"
  shows "app_repo_set_status (d\<lparr>apps := xs @ [y]\<rparr>) (app_id y) st =
           (d\<lparr>apps := xs @ [y\<lparr>app_status := st\<rparr>]\<rparr>, Some (y\<lparr>app_status := st\<rparr>))"
  using assms
  by (simp add: app_repo_set_status_def app_get_by_id_last update_first_append_last)

lemma get_tenant_apps_normal:
  "tenant_get_by_id d t \<noteq> None \<Longrightarrow> is_member d t caller \<Longrightarrow>
   get_tenant_apps d t caller False =
     Inr (filter (\<lambda>a. app_tenant_id a = t \<and> app_status a = NORMAL) (apps d))"
  by (auto simp: get_tenant_apps_def get_active_apps_by_tenant_def split: option.splits)

text \<open>
  C8. An app that \<open>create_app\<close> returned has status normal. For every member of its
  tenant as caller, \<open>archive_app\<close> returns it with status archived, and the listing
  without archived apps then has no app of that identifier; \<open>unarchive_app\<close> after
  that returns it with status normal, puts the store back as it was after creation, and
  the listing has the app again. For every existing tenant and member, that listing is
  exactly the tenant's apps of status normal.
\<close>

theorem archive_unarchive_visibility:
  assumes "create_app d new_id t creator name mode description icon background = Inr (d1, app)"
      and "is_member d t caller"
  shows "app_status app = NORMAL
    \<and> (\<exists>d2. archive_app d1 (app_id app) caller = Inr (d2, Some (app\<lparr>app_status := ARCHIVED\<rparr>))
         \<and> app_get_by_id d2 (app_id app) = Some (app\<lparr>app_status := ARCHIVED\<rparr>)
         \<and> (\<exists>listed. get_tenant_apps d2 t caller False = Inr listed
               \<and> app_id app \<notin> app_id ` set listed)
         \<and> unarchive_app d2 (app_id app) caller = Inr (d1, Some app)
         \<and> (\<exists>listed. get_tenant_apps d1 t caller False = Inr listed \<and> app \<in> set listed))
    \<and> (tenant_get_by_id d3 t3 \<noteq> None \<and> is_member d3 t3 caller3 \<longrightarrow>
         get_tenant_apps d3 t3 caller3 False =
           Inr (filter (\<lambda>a. app_tenant_id a = t3 \<and> app_status a = NORMAL) (apps d3)))"
proof -
  note cr = create_app_result [OF assms(1)]
  define arch where "arch = app\<lparr>app_status := ARCHIVED\<rparr>"
  define d2 where "d2 = d\<lparr>apps := apps d @ [arch]\<rparr>"
  have fresh: "\<forall>x \<in> set (apps d). app_id x \<noteq> app_id app" using cr(2,3) by simp
  have fresh': "\<forall>x \<in> set (apps d). app_id x \<noteq> app_id arch" using fresh by (simp add: arch_def)
  have restored: "arch\<lparr>app_status := NORMAL\<rparr> = app" using cr(4) by (simp add: arch_def)
  have get1: "app_get_by_id d1 (app_id app) = Some app"
    unfolding cr(1) using fresh by (rule app_get_by_id_last)
  have a: "archive_app d1 (app_id app) caller = Inr (d2, Some arch)"
    using get1 assms(2) cr(5) set_status_last [OF fresh, of d ARCHIVED]
    by (simp add: archive_app_def archive_def cr(1) d2_def arch_def)
  have get2: "app_get_by_id d2 (app_id app) = Some arch"
    using app_get_by_id_last [OF fresh', of d] by (simp add: d2_def arch_def)
  have ten: "tenant_get_by_id d2 t \<noteq> None" "tenant_get_by_id d1 t \<noteq> None"
    using cr(6) by (simp_all add: d2_def cr(1))
  have mem: "is_member d2 t caller" "is_member d1 t caller"
    using assms(2) by (simp_all add: d2_def cr(1))
  have l2: "get_tenant_apps d2 t caller False =
      Inr (filter (\<lambda>a. app_tenant_id a = t \<and> app_status a = NORMAL) (apps d2))"
    using ten(1) mem(1) by (rule get_tenant_apps_normal)
  have notin: "app_id app \<notin>
      app_id ` set (filter (\<lambda>a. app_tenant_id a = t \<and> app_status a = NORMAL) (apps d2))"
    using fresh by (auto simp: d2_def arch_def)
  have u: "unarchive_app d2 (app_id app) caller = Inr (d1, Some app)"
    using get2 mem(1) cr(5) set_status_last [OF fresh', of d NORMAL] restored
    by (simp add: unarchive_app_def unarchive_def d2_def cr(1) arch_def)
  have l1: "get_tenant_apps d1 t caller False =
      Inr (filter (\<lambda>a. app_tenant_id a = t \<and> app_status a = NORMAL) (apps d1))"
    using ten(2) mem(2) by (rule get_tenant_apps_normal)
  have isin: "app \<in> set (filter (\<lambda>a. app_tenant_id a = t \<and> app_status a = NORMAL) (apps d1))"
    using cr(4,5) by (simp add: cr(1))
  show ?thesis
    using cr(4) a get2 l2 notin u l1 isin get_tenant_apps_normal [of d3 t3 caller3]
    unfolding arch_def by blast
qed

lemma create_app_example:
  "create_app db_t1 ''a1'' ''t1'' ''u1'' ''Bot'' CHAT None None None =
     Inr (db_t1\<lparr>apps := [app_a1]\<rparr>, app_a1)"
  "is_member db_t1 ''t1'' ''u2''"
  "tenant_get_by_id db_t1 ''t1'' \<noteq> None"
  "apps db_t1 = []"
  "app_id app_a1 = ''a1''"
  by (simp_all add: create_app_def db_t1_def tenant_t1_def py_strip_def py_isspace_def
      tenant_get_by_id_def first_where_def is_member_def is_join_def app_repo_create_def
      or_default_def app_a1_def)

theorem archive_unarchive_visibility_witness:
  "create_app db_t1 ''a1'' ''t1'' ''u1'' ''Bot'' CHAT None None None =
     Inr (db_t1\<lparr>apps := [app_a1]\<rparr>, app_a1)
   \<and> is_member db_t1 ''t1'' ''u2''
   \<and> tenant_get_by_id db_t1 ''t1'' \<noteq> None
   \<and> app_status app_a1 = NORMAL
   \<and> (\<exists>d2. archive_app (db_t1\<lparr>apps := [app_a1]\<rparr>) ''a1'' ''u2'' =
              Inr (d2, Some (app_a1\<lparr>app_status := ARCHIVED\<rparr>))
          \<and> unarchive_app d2 ''a1'' ''u2'' = Inr (db_t1\<lparr>apps := [app_a1]\<rparr>, Some app_a1))
   \<and> get_tenant_apps db_t1 ''t1'' ''u2'' False = Inr []"
  using archive_unarchive_visibility [OF create_app_example(1,2), where ?d3.0 = db_t1
      and ?t3.0 = "''t1''" and ?caller3.0 = "''u2''"]
  by (simp add: create_app_example) blast

section \<open>Authentication\<close>

text \<open>
  C9. \<open>login\<close> looks at the account's status before the password: for a stored account
  that is banned (or inactive), every password and every password-hash check give the
  AuthenticationError with the message of that status, never the generic one, and the
  outcome is the same whatever the password-hash check would answer.
\<close>

theorem login_status_before_password:
  "(account_get_by_email d email = Some account \<and> account_status account = BANNED \<longrightarrow>
      login svc now d email password = Inl (AuthenticationError ''Account has been banned''))
   \<and> (account_get_by_email d email = Some account \<and> account_status account = INACTIVE \<longrightarrow>
      login svc now d email password = Inl (AuthenticationError ''Account is inactive''))
   \<and> (account_get_by_email d email = Some account \<and> account_status account \<noteq> ACTIVE \<longrightarrow>
      login (svc\<lparr>check_password_hash := check\<rparr>) now d email password =
        login svc now d email password)"
  by (cases "account_status account") (auto simp: login_def)

lemma three_accounts_lookups:
  "account_get_by_email db_three_accounts ''b@x.com'' = Some account_u2"
  "account_get_by_email db_three_accounts ''c@x.com'' = Some account_u3"
  "account_status account_u2 = BANNED"
  "account_status account_u3 = INACTIVE"
  "account_get_by_id db_three_accounts ''u1'' = Some account_u1"
  "account_status account_u1 = ACTIVE"
  "account_id account_u1 = ''u1''"
  "account_email account_u1 = ''a@x.com''"
  by (simp_all add: db_three_accounts_def account_get_by_email_def account_get_by_id_def
      first_where_def account_u1_def account_u2_def account_u3_def)

theorem login_status_before_password_witness:
  "account_get_by_email db_three_accounts ''b@x.com'' = Some account_u2
   \<and> account_status account_u2 = BANNED
   \<and> login example_service 0 db_three_accounts ''b@x.com'' ''wrong'' =
       Inl (AuthenticationError ''Account has been banned'')
   \<and> account_get_by_email db_three_accounts ''c@x.com'' = Some account_u3
   \<and> account_status account_u3 = INACTIVE
   \<and> login example_service 0 db_three_accounts ''c@x.com'' ''wrong'' =
       Inl (AuthenticationError ''Account is inactive'')"
  using login_status_before_password [of db_three_accounts "''b@x.com''" account_u2
      example_service 0 "''wrong''"]
    login_status_before_password [of db_three_accounts "''c@x.com''" account_u3
      example_service 0 "''wrong''"]
  by (simp add: three_accounts_lookups)

lemma generated_claims:
  "dict_get [(''account_id'', JStr i), (''email'', JStr e), (''exp'', JInt x), (''iat'', JInt n)]
     ''exp'' = Some (JInt x)"
  "dict_get [(''account_id'', JStr i), (''email'', JStr e), (''exp'', JInt x), (''iat'', JInt n)]
     ''account_id'' = Some (JStr i)"
  by (simp_all add: dict_get_def)

text \<open>
  C5. With a token codec as specified and a UUID constructor that reads back the text of
  the account's identifier: for an active account that its identifier retrieves, the
  token issued at \<open>issued\<close> verifies, at any time before its expiry, to that very
  account; and the token of any claims whose \<open>exp\<close> is not after the clock is refused
  with the AuthenticationError.
\<close>

theorem token_round_trip:
  assumes "codec_as_specified svc"
  shows "(account_get_by_id d (account_id account) = Some account
          \<and> account_status account = ACTIVE \<and> account_id account \<noteq> []
          \<and> uuid_of_str svc (account_id account) = Inr (account_id account)
          \<and> now < issued + 3600 * token_expiry_hours svc \<longrightarrow>
          verify_token svc now d
            (generate_token svc issued (account_id account) (account_email account))
          = Inr account)
    \<and> (dict_get claims ''exp'' = Some (JInt e) \<and> e \<le> now \<longrightarrow>
          verify_token svc now d (jwt_encode svc claims (secret_key svc)) =
            Inl (AuthenticationError ''Token has expired''))"
proof -
  have dec: "jwt_decode svc (jwt_encode svc c key) key n =
      (if x \<le> n then Inl ExpiredSignatureError else Inr c)"
    if "dict_get c ''exp'' = Some (JInt x)" for c key x n
    using assms that unfolding codec_as_specified_def by blast
  have expired: "verify_token svc now d (jwt_encode svc claims (secret_key svc)) =
      Inl (AuthenticationError ''Token has expired'')"
    if "dict_get claims ''exp'' = Some (JInt e)" and "e \<le> now"
    using dec [OF that(1), of "secret_key svc" now] that(2) by (simp add: verify_token_def)
  have fresh: "verify_token svc now d
      (generate_token svc issued (account_id account) (account_email account)) = Inr account"
    if "account_get_by_id d (account_id account) = Some account"
      and "account_status account = ACTIVE" and "account_id account \<noteq> []"
      and "uuid_of_str svc (account_id account) = Inr (account_id account)"
      and "now < issued + 3600 * token_expiry_hours svc"
    using that dec [OF generated_claims(1), of "account_id account" "account_email account"
        "issued + 3600 * token_expiry_hours svc" issued "secret_key svc" now]
    by (simp add: verify_token_def generate_token_def generated_claims)
  from expired fresh show ?thesis by blast
qed

lemma example_codec_as_specified: "codec_as_specified example_service"
  by (simp add: codec_as_specified_def example_service_def example_decode_def)

theorem token_round_trip_witness:
  "codec_as_specified example_service
   \<and> account_get_by_id db_three_accounts (account_id account_u1) = Some account_u1
   \<and> account_status account_u1 = ACTIVE
   \<and> verify_token example_service 3600 db_three_accounts
        (generate_token example_service 0 ''u1'' ''a@x.com'') = Inr account_u1
   \<and> verify_token example_service 100 db_three_accounts
        (jwt_encode example_service [(''account_id'', JStr ''u1''), (''exp'', JInt 99)]
           (secret_key example_service))
      = Inl (AuthenticationError ''Token has expired'')"
  using token_round_trip [OF example_codec_as_specified, where d = db_three_accounts
      and account = account_u1 and now = 3600 and issued = 0]
    token_round_trip [OF example_codec_as_specified, where d = db_three_accounts
      and claims = "[(''account_id'', JStr ''u1''), (''exp'', JInt 99)]" and e = 99
      and now = 100]
  by (simp add: three_accounts_lookups example_codec_as_specified dict_get_def)
     (simp add: example_service_def)

section \<open>Parsing the stream\<close>

text \<open>
  C10. The \<open>except\<close> of the loop covers only \<open>JSONDecodeError\<close>: the line \<open>{}\<close> is
  valid JSON, and on it the generator lets a KeyError escape instead of dropping the
  line, so that the line with content that follows is never yielded; an empty
  \<open>choices\<close> list does the same with an IndexError.
\<close>

theorem stream_invoke_shape_error_escapes:
  "json_loads ''{}'' = Decoded (JDict [])
   \<and> stream_invoke json_loads (http_lines [line_no_choices, line_hi])
        [(''api_key'', JStr ''sk-1'')] [(''user'', ''hello'')]
      = ([], Raised (KeyError (key_repr ''choices'')))
   \<and> stream_invoke json_loads (http_lines [line_empty_choices, line_hi])
        [(''api_key'', JStr ''sk-1'')] [(''user'', ''hello'')]
      = ([], Raised (IndexError ''list index out of range''))"
  by code_simp

lemma well_shapedE:
  assumes "well_shaped data"
  obtains d c cs dd where "data = JDict d" and "map_of d ''choices'' = Some (JList (JDict c # cs))"
    and "dict_get_default c ''delta'' (JDict []) = JDict dd"
    and "truthy (dict_get_default dd ''content'' (JStr [])) \<longrightarrow> map_of d ''model'' \<noteq> None"
proof (cases data)
  case (JDict d)
  note data = this
  show thesis
  proof (cases "map_of d ''choices''")
    case (Some v)
    note choices = this
    show thesis
    proof (cases v)
      case (JList xs)
      note v = this
      show thesis
      proof (cases xs)
        case (Cons x cs)
        note xs = this
        show thesis
        proof (cases x)
          case (JDict c)
          note x = this
          show thesis
          proof (cases "dict_get_default c ''delta'' (JDict [])")
            case (JDict dd)
            with assms data choices v xs x that [of d c cs dd] show thesis
              by (simp add: well_shaped_def)
          qed (use assms data choices v xs x in \<open>simp_all add: well_shaped_def\<close>)
        qed (use assms data choices v xs in \<open>simp_all add: well_shaped_def\<close>)
      qed (use assms data choices v in \<open>simp_all add: well_shaped_def\<close>)
    qed (use assms data choices in \<open>simp_all add: well_shaped_def\<close>)
  qed (use assms data in \<open>simp_all add: well_shaped_def\<close>)
qed (use assms in \<open>simp_all add: well_shaped_def\<close>)

lemma chunk_of_data_well_shaped:
  assumes "well_shaped data"
  shows "chunk_of_data data =
     Inr (if truthy (delta_content data) then
            Some \<lparr>chunk_model = field data ''model'' JNull, chunk_delta = delta_content data,
                  chunk_finish_reason = field (first_choice data) ''finish_reason'' JNull,
                  chunk_index = field (first_choice data) ''index'' (JInt 0)\<rparr>
          else None)"
proof -
  from assms obtain d c cs dd where data: "data = JDict d"
    and s: "map_of d ''choices'' = Some (JList (JDict c # cs))"
    "dict_get_default c ''delta'' (JDict []) = JDict dd"
    "truthy (dict_get_default dd ''content'' (JStr [])) \<longrightarrow> map_of d ''model'' \<noteq> None"
    by (rule well_shapedE)
  have fc: "first_choice (JDict d) = JDict c"
    by (simp add: first_choice_def field_def dict_get_default_def s)
  have dc: "delta_content (JDict d) = dict_get_default dd ''content'' (JStr [])"
    by (simp add: delta_content_def fc field_def s)
  show ?thesis
  proof (cases "truthy (dict_get_default dd ''content'' (JStr []))")
    case True
    with s(3) obtain m where m: "map_of d ''model'' = Some m" by auto
    then have fm: "field (JDict d) ''model'' JNull = m"
      by (simp add: field_def dict_get_default_def)
    from True m show ?thesis
      by (simp add: chunk_of_data_def data s fc dc fm) (simp add: field_def)
  next
    case False
    then show ?thesis
      by (simp add: chunk_of_data_def data s dc)
  qed
qed

lemmas shape_defs = key_repr_def not_subscriptable_def no_attribute_def

lemma chunk_of_data_ill_shaped:
  assumes "\<not> well_shaped data"
  shows "\<exists>e. chunk_of_data data = Inl e \<and> shape_error e"
proof (cases data)
  case (JDict d)
  note data = this
  show ?thesis
  proof (cases "map_of d ''choices''")
    case (Some v)
    note choices = this
    show ?thesis
    proof (cases v)
      case (JList xs)
      note v = this
      show ?thesis
      proof (cases xs)
        case (Cons x cs)
        note xs = this
        show ?thesis
        proof (cases x)
          case (JDict c)
          note x = this
          show ?thesis
          proof (cases "dict_get_default c ''delta'' (JDict [])")
            case (JDict dd)
            with assms data choices v xs x
            have "truthy (dict_get_default dd ''content'' (JStr []))" "map_of d ''model'' = None"
              by (auto simp: well_shaped_def)
            with data choices v xs x JDict show ?thesis
              by (simp add: chunk_of_data_def key_repr_def)
          qed (use data choices v xs x in \<open>simp_all add: chunk_of_data_def shape_defs\<close>)
        qed (use data choices v xs in \<open>simp_all add: chunk_of_data_def shape_defs\<close>)
      qed (use data choices v in \<open>simp_all add: chunk_of_data_def shape_defs\<close>)
    next
      case (JStr s)
      with data choices show ?thesis by (cases s) (simp_all add: chunk_of_data_def shape_defs)
    qed (use data choices in \<open>simp_all add: chunk_of_data_def shape_defs\<close>)
  qed (use data in \<open>simp_all add: chunk_of_data_def shape_defs\<close>)
qed (simp_all add: chunk_of_data_def shape_defs)

lemma sse_payloads_Cons:
  "sse_payloads (l # ls) =
     (if l = [] then sse_payloads ls
      else if strip_data_prefix l = ''[DONE]'' then []
      else strip_data_prefix l # sse_payloads ls)"
  by (simp add: sse_payloads_def)

lemma stream_lines_Cons:
  "stream_lines loads (l # ls) =
     (if l = [] then stream_lines loads ls
      else if strip_data_prefix l = ''[DONE]'' then ([], Finished)
      else
        (case loads (strip_data_prefix l) of
           JSONDecodeError \<Rightarrow> stream_lines loads ls
         | Unmodelled \<Rightarrow> ([], OutsideModel)
         | Decoded data \<Rightarrow>
             (case chunk_of_data data of
                Inl e \<Rightarrow> ([], Raised e)
              | Inr None \<Rightarrow> stream_lines loads ls
              | Inr (Some chunk) \<Rightarrow>
                  (chunk # fst (stream_lines loads ls), snd (stream_lines loads ls)))))"
  by (simp add: strip_data_prefix_def Let_def)

declare stream_lines.simps(2) [simp del]

lemma stream_lines_ok_payload:
  assumes "l \<noteq> []" and "strip_data_prefix l \<noteq> ''[DONE]''"
      and "line_ok loads (strip_data_prefix l)"
  shows "stream_lines loads (l # ls) =
           (case sse_chunk loads (strip_data_prefix l) of
              None \<Rightarrow> stream_lines loads ls
            | Some chunk \<Rightarrow>
                (chunk # fst (stream_lines loads ls), snd (stream_lines loads ls)))"
proof (cases "loads (strip_data_prefix l)")
  case (Decoded data)
  with assms(3) have "well_shaped data" by (simp add: line_ok_def)
  from chunk_of_data_well_shaped [OF this] Decoded assms(1,2) show ?thesis
    by (simp add: stream_lines_Cons sse_chunk_def)
next
  case JSONDecodeError
  with assms(1,2) show ?thesis by (simp add: stream_lines_Cons sse_chunk_def)
next
  case Unmodelled
  with assms(3) show ?thesis by (simp add: line_ok_def)
qed

lemma stream_lines_all_ok:
  "\<forall>p \<in> set (sse_payloads lines). line_ok loads p \<Longrightarrow>
   stream_lines loads lines = (sse_chunks loads lines, Finished)"
proof (induction lines)
  case Nil
  show ?case by (simp add: sse_chunks_def sse_payloads_def)
next
  case (Cons l ls)
  show ?case
  proof (cases "l = [] \<or> strip_data_prefix l = ''[DONE]''")
    case True
    with Cons show ?thesis
      by (auto simp: stream_lines_Cons sse_payloads_Cons sse_chunks_def)
  next
    case False
    with Cons.prems have ok: "line_ok loads (strip_data_prefix l)"
      and rest: "\<forall>p \<in> set (sse_payloads ls). line_ok loads p"
      by (simp_all add: sse_payloads_Cons)
    from Cons.IH [OF rest] False stream_lines_ok_payload [of l loads ls] ok show ?thesis
      by (simp add: sse_payloads_Cons sse_chunks_def
          split: option.splits)
  qed
qed

lemma stream_lines_first_ill_shaped:
  "sse_payloads lines = ps @ p # rest \<Longrightarrow> \<forall>q \<in> set ps. line_ok loads q \<Longrightarrow>
   loads p = Decoded data \<Longrightarrow> \<not> well_shaped data \<Longrightarrow>
   \<exists>e. shape_error e
     \<and> stream_lines loads lines = (List.map_filter (sse_chunk loads) ps, Raised e)"
proof (induction lines arbitrary: ps)
  case Nil
  then show ?case by (simp add: sse_payloads_def)
next
  case (Cons l ls)
  show ?case
  proof (cases "l = []")
    case True
    with Cons show ?thesis by (simp add: stream_lines_Cons sse_payloads_Cons)
  next
    case False
    with Cons.prems(1) have nd: "strip_data_prefix l \<noteq> ''[DONE]''"
      and pay: "strip_data_prefix l # sse_payloads ls = ps @ p # rest"
      by (auto simp: sse_payloads_Cons split: if_splits)
    show ?thesis
    proof (cases ps)
      case Nil
      with pay have "strip_data_prefix l = p" by simp
      with chunk_of_data_ill_shaped [OF Cons.prems(4)] Cons.prems(3) False nd Nil
      show ?thesis by (auto simp: stream_lines_Cons)
    next
      case (Cons q qs)
      with pay have q: "strip_data_prefix l = q" and tl: "sse_payloads ls = qs @ p # rest"
        by simp_all
      from Cons.prems(2) Cons have okq: "line_ok loads (strip_data_prefix l)"
        and okqs: "\<forall>q \<in> set qs. line_ok loads q" by (simp_all add: q)
      from Cons.IH [OF tl okqs Cons.prems(3,4)] obtain e where "shape_error e"
        "stream_lines loads ls = (List.map_filter (sse_chunk loads) qs, Raised e)" by blast
      with stream_lines_ok_payload [OF False nd okq, of ls] Cons q show ?thesis
        by (auto simp: split: option.splits)
    qed
  qed
qed

text \<open>
  C6 (as amended). Let the request of \<open>stream_invoke\<close> succeed with the response lines
  \<open>lines\<close>. When every line that is left after skipping the empty lines, stripping the
  \<open>data: \<close> prefix and stopping at the first \<open>[DONE]\<close> either fails JSON parsing or
  parses to a well-shaped object, the generator yields exactly the chunks of the
  specification, one for each such line whose \<open>delta.content\<close> is not empty, in input
  order, and ends normally. When one of these lines parses to a value that is not
  well-shaped, and all lines before it are as above, the generator yields the chunks of
  the lines before it and then lets a KeyError, an IndexError, a TypeError or an
  AttributeError escape.
\<close>

theorem stream_invoke_parses_sse:
  assumes "truthy (dict_get_default credentials ''api_key'' JNull)" and "messages \<noteq> []"
      and "dict_get_default credentials ''base_url'' (JStr ''https://api.openai.com/v1'') = JStr u"
      and "http_stream (py_rstrip_slash u @ ''/chat/completions'')
             (dict_get_default credentials ''api_key'' JNull) = Inr lines"
  shows "((\<forall>p \<in> set (sse_payloads lines). line_ok loads p) \<longrightarrow>
            stream_invoke loads http_stream credentials messages
              = (sse_chunks loads lines, Finished))
    \<and> (sse_payloads lines = ps @ p # rest \<and> (\<forall>q \<in> set ps. line_ok loads q)
         \<and> loads p = Decoded data \<and> \<not> well_shaped data \<longrightarrow>
        (\<exists>e. shape_error e
           \<and> stream_invoke loads http_stream credentials messages
                = (List.map_filter (sse_chunk loads) ps, Raised e)))"
proof -
  have "stream_invoke loads http_stream credentials messages = stream_lines loads lines"
    using assms by (simp add: stream_invoke_def Let_def)
  then show ?thesis
    using stream_lines_all_ok [of lines loads]
      stream_lines_first_ill_shaped [of lines ps p rest loads data]
    by simp
qed

lemma example_request:
  "truthy (dict_get_default [(''api_key'', JStr ''sk-1'')] ''api_key'' JNull)"
  "[(''user'', ''hello'')] \<noteq> []"
  "dict_get_default [(''api_key'', JStr ''sk-1'')] ''base_url'' (JStr ''https://api.openai.com/v1'')
     = JStr ''https://api.openai.com/v1''"
  "http_lines ls (py_rstrip_slash ''https://api.openai.com/v1'' @ ''/chat/completions'')
     (dict_get_default [(''api_key'', JStr ''sk-1'')] ''api_key'' JNull) = Inr ls"
  by (simp_all add: dict_get_default_def http_lines_def)

lemma example_lines_ok:
  "\<forall>p \<in> set (sse_payloads lines_mixed). line_ok json_loads p"
  by code_simp

lemma example_chunks:
  "sse_chunks json_loads lines_mixed = [chunk_hi]"
  by code_simp

lemma example_ill_shaped:
  "sse_payloads [line_hi, line_no_choices, line_hi] = [drop 6 line_hi] @ ''{}'' # [drop 6 line_hi]"
  "\<forall>q \<in> set [drop 6 line_hi]. line_ok json_loads q"
  "json_loads ''{}'' = Decoded (JDict [])"
  "\<not> well_shaped (JDict [])"
  "List.map_filter (sse_chunk json_loads) [drop 6 line_hi] = [chunk_hi]"
  by code_simp+

theorem stream_invoke_parses_sse_witness:
  "list_all (line_ok json_loads) (sse_payloads lines_mixed)
   \<and> stream_invoke json_loads (http_lines lines_mixed)
        [(''api_key'', JStr ''sk-1'')] [(''user'', ''hello'')] = ([chunk_hi], Finished)
   \<and> json_loads ''{}'' = Decoded (JDict []) \<and> \<not> well_shaped (JDict [])
   \<and> (\<exists>e. shape_error e
         \<and> stream_invoke json_loads (http_lines [line_hi, line_no_choices, line_hi])
              [(''api_key'', JStr ''sk-1'')] [(''user'', ''hello'')] = ([chunk_hi], Raised e))"
proof -
  let ?creds = "[(''api_key'', JStr ''sk-1'')]"
  let ?bad = "[line_hi, line_no_choices, line_hi]"
  have good: "stream_invoke json_loads (http_lines lines_mixed) ?creds [(''user'', ''hello'')]
      = (sse_chunks json_loads lines_mixed, Finished)"
    using stream_invoke_parses_sse [where credentials = ?creds
        and messages = "[(''user'', ''hello'')]" and u = "''https://api.openai.com/v1''"
        and http_stream = "http_lines lines_mixed" and lines = lines_mixed
        and loads = json_loads]
      example_request(1-3) example_request(4) [of lines_mixed] example_lines_ok
    by blast
  have bad: "\<exists>e. shape_error e
      \<and> stream_invoke json_loads (http_lines ?bad) ?creds [(''user'', ''hello'')]
      = (List.map_filter (sse_chunk json_loads) [drop 6 line_hi], Raised e)"
    using stream_invoke_parses_sse [where credentials = ?creds
        and messages = "[(''user'', ''hello'')]" and u = "''https://api.openai.com/v1''"
        and http_stream = "http_lines ?bad" and lines = ?bad and loads = json_loads
        and ps = "[drop 6 line_hi]" and p = "''{}''" and rest = "[drop 6 line_hi]"
        and data = "JDict []"]
      example_request(1-3) example_request(4) [of ?bad] example_ill_shaped(1-4)
    by blast
  from good bad show ?thesis
    using example_lines_ok example_ill_shaped(3,4)
    by (simp only: example_chunks example_ill_shaped(5) list_all_iff) blast
qed

text \<open>
  The claim as first stated fails on a line that is valid JSON of another shape: the
  specification's chunks include the one of the line that follows, while the generator
  has stopped with the KeyError before it.
\<close>

theorem stream_invoke_parses_sse_counterexample:
  "stream_invoke json_loads (http_lines [line_no_choices, line_hi])
     [(''api_key'', JStr ''sk-1'')] [(''user'', ''hello'')]
     = ([], Raised (KeyError (key_repr ''choices'')))
   \<and> sse_chunks json_loads [line_no_choices, line_hi] = [chunk_hi]"
  by code_simp

section \<open>Reading back what json.dumps wrote\<close>

lemma toks_start: "\<exists>t ts. toks v = t # ts \<and> t \<noteq> TRBracket"
  by (cases v) auto

lemma run_value_or_close: "run ValueOrClose st (toks v @ ts) = run Value st (toks v @ ts)"
  using toks_start [of v] by auto

lemma dict_set_fresh: "k \<notin> fst ` set d \<Longrightarrow> dict_set d k v = d @ [(k, v)]"
  by (induction d) auto

lemma run_elements:
  assumes "\<And>x st ts. x \<in> set xs \<Longrightarrow> run Value st (toks x @ ts) = after_value x st ts"
      and "xs \<noteq> []"
  shows "run Value (InList acc # st) (sep (map toks xs) @ TRBracket # ts)
           = after_value (JList (rev acc @ xs)) st ts"
  using assms
proof (induction xs arbitrary: acc)
  case Nil
  then show ?case by simp
next
  case (Cons x xs)
  show ?case
  proof (cases xs)
    case Nil
    with Cons.prems(1) [of x] show ?thesis
      by (simp add: after_value_def)
  next
    case (Cons y ys)
    have "run Value (InList (x # acc) # st) (sep (map toks xs) @ TRBracket # ts)
            = after_value (JList (rev (x # acc) @ xs)) st ts"
      using Cons.IH [of "x # acc"] Cons.prems(1) Cons by simp
    with Cons Cons.prems(1) [of x] show ?thesis
      by (simp add: after_value_def)
  qed
qed


lemma run_members:
  assumes "\<And>k x st ts. (k, x) \<in> set ps \<Longrightarrow> run Value st (toks x @ ts) = after_value x st ts"
      and "ps \<noteq> []" and "distinct (map fst (acc @ ps))"
  shows "run Key (InDict acc None # st)
           (sep (map (\<lambda>(k, v). TString k # TColon # toks v) ps) @ TRBrace # ts)
           = after_value (JDict (acc @ ps)) st ts"
  using assms
proof (induction ps arbitrary: acc)
  case Nil
  then show ?case by simp
next
  case (Cons p ps)
  obtain k x where p: "p = (k, x)" by (cases p)
  from Cons.prems(3) have fresh: "k \<notin> fst ` set acc" by (auto simp: p)
  have val: "run Value st' (toks x @ ts') = after_value x st' ts'" for st' ts'
    using Cons.prems(1) [of k x] by (simp add: p)
  show ?case
  proof (cases ps)
    case Nil
    with val show ?thesis
      by (simp add: p after_value_def dict_set_fresh [OF fresh])
  next
    case more: (Cons q qs)
    have "run Key (InDict (acc @ [(k, x)]) None # st)
            (sep (map (\<lambda>(k, v). TString k # TColon # toks v) ps) @ TRBrace # ts)
            = after_value (JDict ((acc @ [(k, x)]) @ ps)) st ts"
    proof (rule Cons.IH)
      show "run Value st' (toks x' @ ts') = after_value x' st' ts'"
        if "(k', x') \<in> set ps" for k' x' st' ts'
        using Cons.prems(1) [of k' x'] that by simp
      show "ps \<noteq> []" by (simp add: more)
      show "distinct (map fst ((acc @ [(k, x)]) @ ps))"
        using Cons.prems(3) by (simp add: p)
    qed
    with more val show ?thesis
      by (simp add: p after_value_def dict_set_fresh [OF fresh])
  qed
qed

lemma run_value: "distinct_keys v \<Longrightarrow> run Value st (toks v @ ts) = after_value v st ts"
proof (induction v arbitrary: st ts)
  case (JList xs)
  show ?case
  proof (cases "xs = []")
    case True
    then show ?thesis by (simp add: after_value_def)
  next
    case False
    have "run Value (InList [] # st) (sep (map toks xs) @ TRBracket # ts)
            = after_value (JList (rev [] @ xs)) st ts"
      using JList False by (intro run_elements) (auto simp: list_all_iff)
    then have "run ValueOrClose (InList [] # st) (sep (map toks xs) @ TRBracket # ts)
            = after_value (JList xs) st ts"
      using False run_value_or_close [of "InList [] # st" "hd xs"
          "TComma # sep (map toks (tl xs)) @ TRBracket # ts"]
        run_value_or_close [of "InList [] # st" "hd xs" "TRBracket # ts"]
      by (cases xs; cases "tl xs") auto
    then show ?thesis by simp
  qed
next
  case (JDict ps)
  show ?case
  proof (cases "ps = []")
    case True
    then show ?thesis by (simp add: after_value_def)
  next
    case False
    have key: "run Key (InDict [] None # st)
            (sep (map (\<lambda>(k, v). TString k # TColon # toks v) ps) @ TRBrace # ts)
            = after_value (JDict ([] @ ps)) st ts"
      using JDict False by (intro run_members) (auto simp: list_all_iff)
    from False obtain k x qs where ps: "ps = (k, x) # qs" by (cases ps) auto
    have "run KeyOrClose (InDict [] None # st)
            (sep (map (\<lambda>(k, v). TString k # TColon # toks v) ps) @ TRBrace # ts)
          = run Key (InDict [] None # st)
            (sep (map (\<lambda>(k, v). TString k # TColon # toks v) ps) @ TRBrace # ts)"
      by (cases qs) (simp_all add: ps)
    with key show ?thesis by simp
  qed
qed (simp_all add: after_value_def)

lemma run_toks: "distinct_keys v \<Longrightarrow> run Value [] (toks v) = Some v"
  using run_value [of v "[]" "[]"] by (simp add: after_value_def)

lemma tprepend_simps [simp]:
  "tprepend [] r = r" "tprepend (t # ts) r = tcons t (tprepend ts r)"
  "tprepend (ts @ us) r = tprepend ts (tprepend us r)"
  by (simp_all add: tprepend_def)

lemma hex_char_props: "n < 16 \<Longrightarrow> is_hex (hex_char n) \<and> hex_val (hex_char n) = n"
  by (auto simp: is_hex_def hex_val_def hex_char_def Let_def)

lemma is_hex_zero: "is_hex (CHR ''0'')" "hex_val (CHR ''0'') = 0"
  by (simp_all add: is_hex_def hex_val_def)

lemma lex_str_escape_char: "lex_str acc (escape_char c @ cs) = lex_str (c # acc) cs"
proof -
  let ?n = "of_char c :: nat"
  have n: "?n < 256" by simp
  consider (quote) "c = CHR 0x22" | (bs) "c = CHR 0x5C" | (nl) "c = CHR 0x0A"
    | (cr) "c = CHR 0x0D" | (tab) "c = CHR 0x09" | (b) "c = CHR 0x08" | (f) "c = CHR 0x0C"
    | (plain) "c \<noteq> CHR 0x22" "c \<noteq> CHR 0x5C" "32 \<le> ?n" "?n \<le> 126"
    | (other) "c \<notin> {CHR 0x22, CHR 0x5C, CHR 0x0A, CHR 0x0D, CHR 0x09, CHR 0x08, CHR 0x0C}"
        "\<not> (32 \<le> ?n \<and> ?n \<le> 126)"
    by auto
  then show ?thesis
  proof cases
    case plain
    then have "escape_char c = [c]" by (auto simp: escape_char_def)
    with plain show ?thesis by simp
  next
    case other
    then have e: "escape_char c = [CHR 0x5C, CHR ''u'', CHR ''0'', CHR ''0'',
        hex_char (?n div 16), hex_char (?n mod 16)]"
      by (auto simp: escape_char_def)
    have "?n < 16 * 16" using n by simp
    then have d1: "?n div 16 < 16" by (rule less_mult_imp_div_less)
    have d2: "?n mod 16 < 16" by simp
    note d = d1 d2
    have v: "hex4 [CHR ''0'', CHR ''0'', hex_char (?n div 16), hex_char (?n mod 16)] = ?n"
      using hex_char_props [OF d(1)] hex_char_props [OF d(2)]
      by (simp add: hex4_def is_hex_zero)
    show ?thesis
      using hex_char_props [OF d(1)] hex_char_props [OF d(2)] n
      by (simp add: e v is_hex_zero)
  qed (simp_all add: escape_char_def unescape_def)
qed

lemma lex_str_string:
  "lex_str acc (concat (map escape_char s) @ CHR 0x22 # rest) = tcons (TString (rev acc @ s)) (lex rest)"
  by (induction s arbitrary: acc) (simp_all add: lex_str_escape_char)

lemma lex_encoded_string:
  "lex (encode_basestring_ascii s @ rest) = tcons (TString s) (lex rest)"
  by (simp add: encode_basestring_ascii_def is_ws_def lex_str_string)


lemma delimited_int_end: "delimited rest \<Longrightarrow> int_end rest"
  by (cases rest; cases "tl rest")
     (auto simp: delimited_def int_end_def is_digit_def starts_float_def)

lemma lex_digits_value:
  "list_all is_digit ds \<Longrightarrow> int_end rest \<Longrightarrow>
   length (dec_digits (foldl (\<lambda>a c. 10 * a + digit_val c) n ds)) \<le> max_str_digits \<Longrightarrow>
   lex_digits neg n (ds @ rest) =
     tcons (TInt (signed neg (foldl (\<lambda>a c. 10 * a + digit_val c) n ds))) (lex rest)"
proof (induction ds arbitrary: n)
  case Nil
  then show ?case by (cases rest) (auto simp: int_end_def)
next
  case (Cons d ds)
  then show ?case by simp
qed

lemma char_eq_code: "c = d \<longleftrightarrow> (of_char c :: nat) = of_char d"
  by simp

lemma digit_char_props:
  "n < 10 \<Longrightarrow> is_digit (digit_char n) \<and> digit_val (digit_char n) = n
     \<and> (digit_char n = CHR ''0'' \<longleftrightarrow> n = 0)"
  by (simp add: is_digit_def digit_val_def digit_char_def char_eq_code [of _ "CHR ''0''"])

lemma dec_digits_digits: "list_all is_digit (dec_digits n)"
proof (induction n rule: dec_digits.induct)
  case (1 n)
  show ?case
  proof (cases "n < 10")
    case True
    then show ?thesis using digit_char_props [of n] by (subst dec_digits.simps) simp
  next
    case False
    then show ?thesis using 1 digit_char_props [of "n mod 10"]
      by (subst dec_digits.simps) simp
  qed
qed

lemma dec_digits_value: "foldl (\<lambda>a c. 10 * a + digit_val c) 0 (dec_digits n) = n"
proof (induction n rule: dec_digits.induct)
  case (1 n)
  show ?case
  proof (cases "n < 10")
    case True
    then show ?thesis using digit_char_props [of n] by (subst dec_digits.simps) simp
  next
    case False
    then show ?thesis using 1 digit_char_props [of "n mod 10"]
      by (subst dec_digits.simps) simp
  qed
qed

lemma dec_digits_head:
  "0 < n \<Longrightarrow> \<exists>c cs. dec_digits n = c # cs \<and> is_digit c \<and> c \<noteq> CHR ''0''"
proof (induction n rule: dec_digits.induct)
  case (1 n)
  show ?case
  proof (cases "n < 10")
    case True
    then show ?thesis using 1(2) digit_char_props [of n] by (subst dec_digits.simps) simp
  next
    case False
    then have "0 < n div 10" by simp
    with 1(1) False obtain c cs where "dec_digits (n div 10) = c # cs" "is_digit c"
      "c \<noteq> CHR ''0''" by auto
    with False show ?thesis by (subst dec_digits.simps) simp
  qed
qed

lemma digit_not_special:
  assumes "is_digit c"
  shows "\<not> is_ws c" "c \<noteq> CHR ''{''" "c \<noteq> CHR ''}''" "c \<noteq> CHR ''[''" "c \<noteq> CHR '']''"
    "c \<noteq> CHR '',''" "c \<noteq> CHR '':''" "c \<noteq> CHR 0x22" "c \<noteq> CHR ''n''" "c \<noteq> CHR ''t''"
    "c \<noteq> CHR ''f''" "c \<noteq> CHR ''-''"
  using assms by (auto simp: is_digit_def is_ws_def)

lemma lex_digit_start:
  assumes "is_digit c" and "c \<noteq> CHR ''0''"
  shows "lex (c # cs) = lex_digits False (digit_val c) cs"
  using assms digit_not_special [OF assms(1)] by simp

lemma lex_minus_digit_start:
  assumes "is_digit c" and "c \<noteq> CHR ''0''"
  shows "lex (CHR ''-'' # c # cs) = lex_digits True (digit_val c) cs"
proof -
  have "\<not> is_ws (CHR ''-'')" "\<not> is_digit (CHR ''-'')"
    by (simp_all add: is_ws_def is_digit_def)
  with assms show ?thesis by simp
qed

lemma lex_int_repr:
  assumes "delimited rest" and "int_str_ok i"
  shows "lex (int_repr i @ rest) = tcons (TInt i) (lex rest)"
proof -
  note ie = delimited_int_end [OF assms(1)]
  have pos: "lex (dec_digits n @ rest) = tcons (TInt (int n)) (lex rest)"
    and neg: "0 < n \<Longrightarrow> lex (CHR ''-'' # dec_digits n @ rest) = tcons (TInt (- int n)) (lex rest)"
    if len: "length (dec_digits n) \<le> max_str_digits" for n
  proof -
    show "lex (dec_digits n @ rest) = tcons (TInt (int n)) (lex rest)"
    proof (cases "n = 0")
      case True
      have "dec_digits 0 = ''0''"
        by (subst dec_digits.simps) (simp add: digit_char_def char_eq_code [of _ "CHR ''0''"])
      with True ie show ?thesis by (simp add: is_ws_def int_end_def)
    next
      case False
      then obtain c cs where d: "dec_digits n = c # cs" "is_digit c" "c \<noteq> CHR ''0''"
        using dec_digits_head [of n] by auto
      from dec_digits_digits [of n] d have ds: "list_all is_digit cs" by simp
      from dec_digits_value [of n] d
      have v: "foldl (\<lambda>a c. 10 * a + digit_val c) (digit_val c) cs = n" by simp
      show ?thesis
        using lex_digits_value [OF ds ie, of "digit_val c" False] d len
        by (simp add: lex_digit_start v signed_def del: lex.simps)
    qed
    show "lex (CHR ''-'' # dec_digits n @ rest) = tcons (TInt (- int n)) (lex rest)" if "0 < n"
    proof -
      from that obtain c cs where d: "dec_digits n = c # cs" "is_digit c" "c \<noteq> CHR ''0''"
        using dec_digits_head [of n] by auto
      from dec_digits_digits [of n] d have ds: "list_all is_digit cs" by simp
      from dec_digits_value [of n] d
      have v: "foldl (\<lambda>a c. 10 * a + digit_val c) (digit_val c) cs = n" by simp
      show ?thesis
        using lex_digits_value [OF ds ie, of "digit_val c" True] d len
        by (simp add: lex_minus_digit_start v signed_def del: lex.simps)
    qed
  qed
  show ?thesis
  proof (cases "i < 0")
    case True
    then have "0 < nat (- i)" and "nat (abs i) = nat (- i)" by simp_all
    with neg [of "nat (- i)"] assms(2) True show ?thesis
      by (simp add: int_repr_def int_str_ok_def)
  next
    case False
    then have "nat (abs i) = nat i" by simp
    with pos [of "nat i"] assms(2) False show ?thesis
      by (simp add: int_repr_def int_str_ok_def)
  qed
qed

lemma lex_literals:
  "lex (''null'' @ rest) = tcons TNull (lex rest)"
  "lex (''true'' @ rest) = tcons TTrue (lex rest)"
  "lex (''false'' @ rest) = tcons TFalse (lex rest)"
  by (simp_all add: is_ws_def)

lemma lex_punctuation:
  "lex (CHR ''['' # cs) = tcons TLBracket (lex cs)"
  "lex (CHR '']'' # cs) = tcons TRBracket (lex cs)"
  "lex (CHR ''{'' # cs) = tcons TLBrace (lex cs)"
  "lex (CHR ''}'' # cs) = tcons TRBrace (lex cs)"
  "lex (CHR '','' # CHR '' '' # cs) = tcons TComma (lex cs)"
  "lex (CHR '':'' # CHR '' '' # cs) = tcons TColon (lex cs)"
  by (simp_all add: is_ws_def)


lemma lex_joined_values:
  assumes "\<And>x rest. x \<in> set xs \<Longrightarrow> delimited rest \<Longrightarrow>
             lex (json_text x @ rest) = tprepend (toks x) (lex rest)"
  shows "lex (join_comma (map json_text xs) @ CHR '']'' # rest)
           = tprepend (sep (map toks xs)) (tcons TRBracket (lex rest))"
  using assms
proof (induction xs)
  case Nil
  show ?case by (simp add: lex_punctuation del: lex.simps)
next
  case (Cons x xs)
  show ?case
  proof (cases xs)
    case Nil
    have "delimited (CHR '']'' # rest)" by (simp add: delimited_def)
    from Cons.prems [OF _ this, of x] Nil show ?thesis
      by (simp add: lex_punctuation del: lex.simps)
  next
    case next_value: (Cons y ys)
    have "delimited (CHR '','' # CHR '' '' # join_comma (map json_text xs) @ CHR '']'' # rest)"
      by (simp add: delimited_def)
    from Cons.prems [OF _ this, of x] Cons.IH Cons.prems next_value show ?thesis
      by (simp add: lex_punctuation del: lex.simps)
  qed
qed

lemma join_comma_Cons: "ys \<noteq> [] \<Longrightarrow> join_comma (y # ys) = y @ '', '' @ join_comma ys"
  by (cases ys) simp_all

lemma sep_Cons: "ys \<noteq> [] \<Longrightarrow> sep (y # ys) = y @ TComma # sep ys"
  by (cases ys) simp_all

lemma lex_joined_members:
  assumes "\<And>k x rest. (k, x) \<in> set ps \<Longrightarrow> delimited rest \<Longrightarrow>
             lex (json_text x @ rest) = tprepend (toks x) (lex rest)"
  shows "lex (join_comma (map (\<lambda>(k, v). encode_basestring_ascii k @ '': '' @ json_text v) ps)
              @ CHR ''}'' # rest)
           = tprepend (sep (map (\<lambda>(k, v). TString k # TColon # toks v) ps))
               (tcons TRBrace (lex rest))"
  using assms
proof (induction ps)
  case Nil
  show ?case by (simp add: lex_punctuation del: lex.simps)
next
  case (Cons p ps)
  let ?text = "\<lambda>(k, v). encode_basestring_ascii k @ '': '' @ json_text v"
  let ?toks = "\<lambda>(k, v). TString k # TColon # toks v"
  obtain k x where p: "p = (k, x)" by (cases p)
  have val: "lex (json_text x @ r) = tprepend (toks x) (lex r)" if "delimited r" for r
    using Cons.prems [of k x r] that by (simp add: p)
  show ?case
  proof (cases "ps = []")
    case True
    have "delimited (CHR ''}'' # rest)" by (simp add: delimited_def)
    from val [OF this] True show ?thesis
      by (simp add: p lex_encoded_string lex_punctuation del: lex.simps)
  next
    case False
    have ih: "lex (join_comma (map ?text ps) @ CHR ''}'' # rest)
        = tprepend (sep (map ?toks ps)) (tcons TRBrace (lex rest))"
      by (rule Cons.IH) (use Cons.prems in auto)
    have "delimited (CHR '','' # CHR '' '' # join_comma (map ?text ps) @ CHR ''}'' # rest)"
      by (simp add: delimited_def)
    from val [OF this] ih False show ?thesis
      by (simp add: p join_comma_Cons sep_Cons lex_encoded_string lex_punctuation
          del: lex.simps)
  qed
qed

lemma ints_ok_of_json:
  "ints_ok (of_json (JList xs)) \<Longrightarrow> x \<in> set xs \<Longrightarrow> ints_ok (of_json x)"
  "ints_ok (of_json (JDict ps)) \<Longrightarrow> (k, x) \<in> set ps \<Longrightarrow> ints_ok (of_json x)"
  by (auto simp: list_all_iff)

lemma lex_json_text:
  "delimited rest \<Longrightarrow> ints_ok (of_json v) \<Longrightarrow>
   lex (json_text v @ rest) = tprepend (toks v) (lex rest)"
proof (induction v arbitrary: rest)
  case JNull
  show ?case using lex_literals(1) [of rest] by (simp del: lex.simps)
next
  case (JBool b)
  show ?case using lex_literals(2,3) [of rest] by (cases b) (simp_all del: lex.simps)
next
  case (JInt i)
  then show ?case by (simp add: lex_int_repr del: lex.simps)
next
  case (JStr s)
  show ?case by (simp add: lex_encoded_string del: lex.simps)
next
  case (JList xs)
  have "lex (join_comma (map json_text xs) @ CHR '']'' # rest)
          = tprepend (sep (map toks xs)) (tcons TRBracket (lex rest))"
    using JList.IH ints_ok_of_json(1) [OF JList.prems(2)] by (intro lex_joined_values) auto
  then show ?case by (simp add: lex_punctuation del: lex.simps)
next
  case (JDict ps)
  have "lex (join_comma (map (\<lambda>(k, v). encode_basestring_ascii k @ '': '' @ json_text v) ps)
              @ CHR ''}'' # rest)
          = tprepend (sep (map (\<lambda>(k, v). TString k # TColon # toks v) ps))
              (tcons TRBrace (lex rest))"
    using JDict.IH ints_ok_of_json(2) [OF JDict.prems(2)] by (intro lex_joined_members) auto
  then show ?case by (simp add: lex_punctuation del: lex.simps)
qed

lemma tprepend_Tokens: "tprepend ts (Tokens us) = Tokens (ts @ us)"
  by (induction ts) simp_all

lemma foldr_max_upper: "x \<in> set xs \<Longrightarrow> g x \<le> foldr max (map g xs) (0::nat)"
  by (induction xs) auto

lemma nesting_of_json:
  "x \<in> set xs \<Longrightarrow> Suc (nesting (of_json x)) \<le> nesting (of_json (JList xs))"
  "(k, x) \<in> set ps \<Longrightarrow> Suc (nesting (of_json x)) \<le> nesting (of_json (JDict ps))"
proof -
  show "Suc (nesting (of_json x)) \<le> nesting (of_json (JList xs))" if "x \<in> set xs"
    using foldr_max_upper [OF that, of "\<lambda>x. nesting (of_json x)"] by (simp add: comp_def)
  show "Suc (nesting (of_json x)) \<le> nesting (of_json (JDict ps))" if "(k, x) \<in> set ps"
    using foldr_max_upper [OF that, of "\<lambda>(k, x). nesting (of_json x)"]
    by (simp add: comp_def case_prod_unfold)
qed

lemma too_deep_sep:
  assumes "\<And>x r. x \<in> set xs \<Longrightarrow> too_deep d (f x @ r) = too_deep d r"
  shows "too_deep d (sep (map f xs) @ r) = too_deep d r"
  using assms
proof (induction xs)
  case Nil
  show ?case by simp
next
  case (Cons x xs)
  show ?case
  proof (cases "xs = []")
    case True
    with Cons.prems [of x r] show ?thesis by simp
  next
    case False
    have "too_deep d (sep (map f xs) @ r) = too_deep d r"
      by (rule Cons.IH) (use Cons.prems in auto)
    with Cons.prems [of x "TComma # sep (map f xs) @ r"] False show ?thesis
      by (simp add: sep_Cons)
  qed
qed

lemma too_deep_toks:
  "d + nesting (of_json v) \<le> nesting_limit \<Longrightarrow> too_deep d (toks v @ rest) = too_deep d rest"
proof (induction v arbitrary: d rest)
  case (JList xs)
  have inner: "too_deep (Suc d) (toks x @ r) = too_deep (Suc d) r" if "x \<in> set xs" for x r
    using JList.IH [OF that, of "Suc d" r] nesting_of_json(1) [OF that] JList.prems by simp
  from JList.prems have "d < nesting_limit" by simp
  with too_deep_sep [of xs "Suc d" toks "TRBracket # rest", OF inner] show ?case by simp
next
  case (JDict ps)
  let ?f = "\<lambda>(k, v). TString k # TColon # toks v"
  have inner: "too_deep (Suc d) (?f p @ r) = too_deep (Suc d) r" if "p \<in> set ps" for p r
  proof -
    obtain k x where p: "p = (k, x)" by (cases p)
    with that have "x \<in> Basic_BNFs.snds p" by simp
    from JDict.IH [OF that this, of "Suc d" r] nesting_of_json(2) [of k x ps] that p JDict.prems
    show ?thesis by simp
  qed
  from JDict.prems have "d < nesting_limit" by simp
  with too_deep_sep [of ps "Suc d" ?f "TRBrace # rest", OF inner] show ?case by simp
qed simp_all

lemma json_loads_text:
  assumes "distinct_keys v" and "ints_ok (of_json v)" and "nesting (of_json v) \<le> nesting_limit"
  shows "json_loads (json_text v) = Decoded v"
proof -
  have "lex (json_text v) = Tokens (toks v)"
    using lex_json_text [of "[]" v] assms(2) by (simp add: delimited_def tprepend_Tokens)
  moreover have "\<not> too_deep 0 (toks v)"
    using too_deep_toks [of 0 v "[]"] assms(3) by simp
  ultimately show ?thesis
    using assms(1) by (simp add: json_loads_def run_toks)
qed

lemma encode_text_of_json: "encode_text (of_json v) = json_text v"
  by (induction v) (auto simp: comp_def case_prod_unfold intro!: arg_cong [where f = join_comma])

lemma json_dumps_of_json:
  assumes "ints_ok (of_json v)" and "nesting (of_json v) \<le> nesting_limit"
  shows "json_dumps (of_json v) = Encoded (json_text v)"
  using assms by (simp add: json_dumps_def encode_text_of_json)

lemma credentials_restored:
  assumes "distinct_keys v" and "ints_ok (of_json v)" and "nesting (of_json v) \<le> nesting_limit"
  shows "encrypt_credentials (of_json v) = Encoded (json_text v)"
    and "decrypt_credentials (json_text v) = Decoded v"
  using json_dumps_of_json [OF assms(2,3)] json_loads_text [OF assms]
  by (simp_all add: encrypt_credentials_def decrypt_credentials_def)

text \<open>
  C7 (as amended). Take a credentials dictionary with string keys whose values are
  \<open>None\<close>, booleans, integers of at most 4300 digits, strings, lists and such
  dictionaries again, nested at most \<open>nesting_limit\<close> deep, each key once in it and in
  the dictionaries inside it. Then \<open>encrypt_credentials\<close> returns a text, and
  \<open>decrypt_credentials\<close> of this text returns the dictionary; so the stored text
  determines the dictionary, and the encoding is reversible. (Floats are outside the
  model.)
\<close>

theorem credentials_round_trip:
  assumes "distinct_keys (JDict credentials)"
      and "ints_ok (of_json (JDict credentials))"
      and "nesting (of_json (JDict credentials)) \<le> nesting_limit"
  shows "(\<exists>text. encrypt_credentials (of_json (JDict credentials)) = Encoded text
            \<and> decrypt_credentials text = Decoded (JDict credentials))
    \<and> (distinct_keys (JDict other) \<and> ints_ok (of_json (JDict other))
         \<and> nesting (of_json (JDict other)) \<le> nesting_limit
         \<and> encrypt_credentials (of_json (JDict other))
             = encrypt_credentials (of_json (JDict credentials))
         \<longrightarrow> other = credentials)"
proof -
  note here = credentials_restored [OF assms]
  have "other = credentials"
    if there: "distinct_keys (JDict other)" "ints_ok (of_json (JDict other))"
      "nesting (of_json (JDict other)) \<le> nesting_limit"
      and same: "encrypt_credentials (of_json (JDict other))
        = encrypt_credentials (of_json (JDict credentials))"
  proof -
    from same have "json_text (JDict other) = json_text (JDict credentials)"
      by (simp only: credentials_restored(1) [OF there] here(1) encoded.inject)
    then have "decrypt_credentials (json_text (JDict other))
        = decrypt_credentials (json_text (JDict credentials))"
      by (rule arg_cong)
    then have "Decoded (JDict other) = Decoded (JDict credentials)"
      by (simp only: credentials_restored(2) [OF there] here(2))
    then show ?thesis by simp
  qed
  with here show ?thesis by blast
qed

lemma example_credentials:
  "distinct_keys (JDict example_credentials)"
  "ints_ok (of_json (JDict example_credentials))"
  "nesting (of_json (JDict example_credentials)) \<le> nesting_limit"
  "encrypt_credentials (of_json (JDict example_credentials)) = Encoded example_credentials_text"
  by code_simp+

theorem credentials_round_trip_witness:
  "distinct_keys (JDict example_credentials)
   \<and> ints_ok (of_json (JDict example_credentials))
   \<and> nesting (of_json (JDict example_credentials)) \<le> nesting_limit
   \<and> encrypt_credentials (of_json (JDict example_credentials)) = Encoded example_credentials_text
   \<and> decrypt_credentials example_credentials_text = Decoded (JDict example_credentials)"
  using credentials_round_trip [OF example_credentials(1-3)] example_credentials
  by auto

text \<open>
  The claim as first stated fails on dictionaries that \<open>json.dumps\<close> accepts and
  writes in another form: a key that is an integer comes back as the string of its
  digits, and a tuple comes back as a list.
\<close>

theorem credentials_round_trip_counterexample:
  "encrypt_credentials (PDict [(KInt 1, PStr ''a'')]) = Encoded text_int_key
   \<and> decrypt_credentials text_int_key = Decoded (JDict [(''1'', JStr ''a'')])
   \<and> of_json (JDict [(''1'', JStr ''a'')]) \<noteq> PDict [(KInt 1, PStr ''a'')]
   \<and> encrypt_credentials (PDict [(KStr ''k'', PTuple [PInt 1, PInt 2])]) = Encoded text_tuple
   \<and> decrypt_credentials text_tuple = Decoded (JDict [(''k'', JList [JInt 1, JInt 2])])
   \<and> of_json (JDict [(''k'', JList [JInt 1, JInt 2])])
       \<noteq> PDict [(KStr ''k'', PTuple [PInt 1, PInt 2])]"
  by code_simp

end
